theory Spec2Isabelle
  imports Complex_Main
begin


section \<open>The syntax tree\<close>

text \<open>
  The notebook \<^verbatim>\<open>presentation.ipynb\<close> runs four rewriting passes over Python's own
  \<^verbatim>\<open>ast\<close> trees: \<^verbatim>\<open>ConstantFolder\<close>, \<^verbatim>\<open>StrengthReducer\<close>, \<^verbatim>\<open>DeadBranchEliminator\<close> and
  \<^verbatim>\<open>DeadFunctionEliminator\<close>. The tree model below keeps the node classes the passes and
  their demonstration inputs touch: modules, function definitions, assignments,
  conditionals, returns, expression statements, calls, binary and unary operations,
  comparisons, names and constants. A function definition keeps its name and its body
  (parameters, decorators and annotations are left out), a call its callee and its
  positional arguments.

  A constant carries a Python value: an integer, a boolean, a float, a string or
  \<^verbatim>\<open>None\<close> (bytes, complex numbers and \<^verbatim>\<open>Ellipsis\<close> are left out). Integers are
  unbounded, booleans are a subclass of the integers, strings are character lists.
  Python's floating-point arithmetic is not part of the notebook; the float carrier is a
  type parameter \<open>'f\<close> and its primitives are the fields of a record that every pass
  receives. The limits of memory are not modelled.

  \<^verbatim>\<open>BinOp.op\<close> ranges over Python's binary operators and, because the folder matches on
  them, over \<^verbatim>\<open>And\<close> and \<^verbatim>\<open>Or\<close>. Three constructors carry a suffix, their names being
  constants of the logic: \<open>Pow_op\<close>, \<open>Not_op\<close> and \<open>If_stmt\<close>.
\<close>

datatype 'f pyconst =
    CInt int
  | CBool bool
  | CFloat 'f
  | CStr string
  | CNone

datatype operator =
    Add | Sub | Mult | MatMult | Div | Mod | Pow_op | LShift | RShift
  | BitOr | BitXor | BitAnd | FloorDiv
  | And | Or

datatype unaryop = Invert | Not_op | UAdd | USub

datatype cmpop = Eq | NotEq | Lt | LtE | Gt | GtE | Is | IsNot | In | NotIn

datatype 'f expr =
    Constant "'f pyconst"
  | Name string
  | BinOp "'f expr" operator "'f expr"
  | UnaryOp unaryop "'f expr"
  | Compare "'f expr" "cmpop list" "'f expr list"
  | Call "'f expr" "'f expr list"

datatype 'f stmt =
    FunctionDef string "'f stmt list"
  | Assign "'f expr list" "'f expr"
  | If_stmt "'f expr" "'f stmt list" "'f stmt list"
  | Return "'f expr option"
  | Expr "'f expr"

datatype 'f module = Module "'f stmt list"

section \<open>Python values and their arithmetic\<close>

datatype error = ZeroDivisionError | TypeError | OverflowError

text \<open>
  The float primitives. \<open>float_of_int\<close> is \<^verbatim>\<open>float(i)\<close> and \<open>int_truediv\<close> is
  \<^verbatim>\<open>i / j\<close> on two integers with a non-zero divisor; both raise OverflowError
  (\<open>None\<close>) on integers too large for a float. \<open>fdiv\<close> is only used with a non-zero
  divisor. \<open>feq_int x i\<close> is the comparison \<^verbatim>\<open>x == i\<close>.
\<close>

record 'f float_ops =
  float_of_int :: "int \<Rightarrow> 'f option"
  int_truediv :: "int \<Rightarrow> int \<Rightarrow> 'f option"
  fadd :: "'f \<Rightarrow> 'f \<Rightarrow> 'f"
  fsub :: "'f \<Rightarrow> 'f \<Rightarrow> 'f"
  fmul :: "'f \<Rightarrow> 'f \<Rightarrow> 'f"
  fdiv :: "'f \<Rightarrow> 'f \<Rightarrow> 'f"
  feq_int :: "'f \<Rightarrow> int \<Rightarrow> bool"

text \<open>
  The float primitives read over the rationals, without rounding: the instance of the
  parameter used wherever a pass is evaluated on a concrete tree.
\<close>

definition exact_floats :: "rat float_ops" where
  "exact_floats =
     \<lparr> float_of_int = (\<lambda>i. Some (of_int i)),
       int_truediv = (\<lambda>i j. Some (of_int i / of_int j)),
       fadd = (\<lambda>x y. x + y),
       fsub = (\<lambda>x y. x - y),
       fmul = (\<lambda>x y. x * y),
       fdiv = (\<lambda>x y. x / y),
       feq_int = (\<lambda>x i. x = of_int i) \<rparr>"

definition bind_err :: "error + 'a \<Rightarrow> ('a \<Rightarrow> error + 'b) \<Rightarrow> error + 'b" where
  "bind_err m f = (case m of Inl e \<Rightarrow> Inl e | Inr x \<Rightarrow> f x)"

text \<open>Numbers: \<^verbatim>\<open>bool\<close> is a subclass of \<^verbatim>\<open>int\<close>, so a boolean takes part in arithmetic as 0 or 1.\<close>

datatype 'f pynum = NInt int | NFloat 'f

fun as_num :: "'f pyconst \<Rightarrow> 'f pynum option" where
  "as_num (CInt i) = Some (NInt i)"
| "as_num (CBool b) = Some (NInt (if b then 1 else 0))"
| "as_num (CFloat x) = Some (NFloat x)"
| "as_num (CStr s) = None"
| "as_num CNone = None"

fun to_float :: "'f float_ops \<Rightarrow> 'f pynum \<Rightarrow> error + 'f" where
  "to_float F (NInt i) = (case float_of_int F i of None \<Rightarrow> Inl OverflowError | Some x \<Rightarrow> Inr x)"
| "to_float F (NFloat x) = Inr x"

text \<open>\<^verbatim>\<open>bool(v)\<close>: the truth value of a constant.\<close>

fun truthy :: "'f float_ops \<Rightarrow> 'f pyconst \<Rightarrow> bool" where
  "truthy F (CInt i) = (i \<noteq> 0)"
| "truthy F (CBool b) = b"
| "truthy F (CFloat x) = (\<not> feq_int F x 0)"
| "truthy F (CStr s) = (s \<noteq> [])"
| "truthy F CNone = False"

text \<open>
  \<open>num_arith\<close> is the common shape of \<^verbatim>\<open>+\<close>, \<^verbatim>\<open>-\<close> and \<^verbatim>\<open>*\<close> on two numbers: integer
  arithmetic on two integers, otherwise both operands are converted to float, the left
  one first.
\<close>

fun num_arith :: "'f float_ops \<Rightarrow> (int \<Rightarrow> int \<Rightarrow> int) \<Rightarrow> ('f \<Rightarrow> 'f \<Rightarrow> 'f) \<Rightarrow>
    'f pynum \<Rightarrow> 'f pynum \<Rightarrow> error + 'f pyconst" where
  "num_arith F iop fop (NInt i) (NInt j) = Inr (CInt (iop i j))"
| "num_arith F iop fop a b =
     bind_err (to_float F a) (\<lambda>x. bind_err (to_float F b) (\<lambda>y. Inr (CFloat (fop x y))))"

text \<open>\<^verbatim>\<open>s * n\<close> on a string: \<open>n\<close> copies, none when \<open>n\<close> is not positive.\<close>

definition str_repeat :: "string \<Rightarrow> int \<Rightarrow> string" where
  "str_repeat s n = concat (replicate (nat n) s)"

text \<open>\<^verbatim>\<open>left + right\<close>\<close>

fun py_add :: "'f float_ops \<Rightarrow> 'f pyconst \<Rightarrow> 'f pyconst \<Rightarrow> error + 'f pyconst" where
  "py_add F (CStr s) (CStr t) = Inr (CStr (s @ t))"
| "py_add F l r =
     (case (as_num l, as_num r) of
        (Some a, Some b) \<Rightarrow> num_arith F (\<lambda>i j. i + j) (fadd F) a b
      | _ \<Rightarrow> Inl TypeError)"

text \<open>\<^verbatim>\<open>left - right\<close>\<close>

definition py_sub :: "'f float_ops \<Rightarrow> 'f pyconst \<Rightarrow> 'f pyconst \<Rightarrow> error + 'f pyconst" where
  "py_sub F l r =
     (case (as_num l, as_num r) of
        (Some a, Some b) \<Rightarrow> num_arith F (\<lambda>i j. i - j) (fsub F) a b
      | _ \<Rightarrow> Inl TypeError)"

text \<open>\<^verbatim>\<open>left * right\<close>: a string times an integer (on either side) repeats the string.\<close>

definition py_mult :: "'f float_ops \<Rightarrow> 'f pyconst \<Rightarrow> 'f pyconst \<Rightarrow> error + 'f pyconst" where
  "py_mult F l r =
     (case (l, as_num r) of
        (CStr s, Some (NInt n)) \<Rightarrow> Inr (CStr (str_repeat s n))
      | _ \<Rightarrow>
     (case (as_num l, r) of
        (Some (NInt n), CStr s) \<Rightarrow> Inr (CStr (str_repeat s n))
      | _ \<Rightarrow>
     (case (as_num l, as_num r) of
        (Some a, Some b) \<Rightarrow> num_arith F (\<lambda>i j. i * j) (fmul F) a b
      | _ \<Rightarrow> Inl TypeError)))"

text \<open>
  \<^verbatim>\<open>left / right\<close>: true division. Two integers give a float, never a truncated
  integer; a zero divisor raises ZeroDivisionError.
\<close>

fun num_truediv :: "'f float_ops \<Rightarrow> 'f pynum \<Rightarrow> 'f pynum \<Rightarrow> error + 'f pyconst" where
  "num_truediv F (NInt i) (NInt j) =
     (if j = 0 then Inl ZeroDivisionError
      else case int_truediv F i j of None \<Rightarrow> Inl OverflowError | Some x \<Rightarrow> Inr (CFloat x))"
| "num_truediv F a b =
     bind_err (to_float F a) (\<lambda>x. bind_err (to_float F b) (\<lambda>y.
       if feq_int F y 0 then Inl ZeroDivisionError else Inr (CFloat (fdiv F x y))))"

definition py_truediv :: "'f float_ops \<Rightarrow> 'f pyconst \<Rightarrow> 'f pyconst \<Rightarrow> error + 'f pyconst" where
  "py_truediv F l r =
     (case (as_num l, as_num r) of
        (Some a, Some b) \<Rightarrow> num_truediv F a b
      | _ \<Rightarrow> Inl TypeError)"

text \<open>\<^verbatim>\<open>left and right\<close>, \<^verbatim>\<open>left or right\<close>: one of the two operands, chosen by the truth value of the left one.\<close>

definition py_and :: "'f float_ops \<Rightarrow> 'f pyconst \<Rightarrow> 'f pyconst \<Rightarrow> 'f pyconst" where
  "py_and F l r = (if truthy F l then r else l)"

definition py_or :: "'f float_ops \<Rightarrow> 'f pyconst \<Rightarrow> 'f pyconst \<Rightarrow> 'f pyconst" where
  "py_or F l r = (if truthy F l then l else r)"

text \<open>
  The native operation behind each of the six operators the constant folder knows;
  \<open>None\<close> for any other operator.
\<close>

fun py_apply :: "'f float_ops \<Rightarrow> operator \<Rightarrow> 'f pyconst \<Rightarrow> 'f pyconst \<Rightarrow> (error + 'f pyconst) option" where
  "py_apply F Add l r = Some (py_add F l r)"
| "py_apply F Sub l r = Some (py_sub F l r)"
| "py_apply F Mult l r = Some (py_mult F l r)"
| "py_apply F Div l r = Some (py_truediv F l r)"
| "py_apply F And l r = Some (Inr (py_and F l r))"
| "py_apply F Or l r = Some (Inr (py_or F l r))"
| "py_apply F _ l r = None"

section \<open>Constant folding\<close>

text \<open>
  \<^verbatim>\<open>ConstantFolder.visit_BinOp\<close> first visits the children (\<^verbatim>\<open>generic_visit\<close>), then
  matches the node against six shapes, in order; the last case returns the node.
  \<open>fold_match\<close> is that \<^verbatim>\<open>match\<close> statement on the already visited children.
\<close>

definition mk_Constant :: "error + 'f pyconst \<Rightarrow> error + 'f expr" where
  "mk_Constant r = bind_err r (\<lambda>v. Inr (Constant v))"

fun fold_match :: "'f float_ops \<Rightarrow> 'f expr \<Rightarrow> operator \<Rightarrow> 'f expr \<Rightarrow> error + 'f expr" where
  "fold_match F (Constant left) Add (Constant right) = mk_Constant (py_add F left right)"
| "fold_match F (Constant left) Sub (Constant right) = mk_Constant (py_sub F left right)"
| "fold_match F (Constant left) Mult (Constant right) = mk_Constant (py_mult F left right)"
| "fold_match F (Constant left) Div (Constant right) = mk_Constant (py_truediv F left right)"
| "fold_match F (Constant left) And (Constant right) = Inr (Constant (py_and F left right))"
| "fold_match F (Constant left) Or (Constant right) = Inr (Constant (py_or F left right))"
| "fold_match F l op r = Inr (BinOp l op r)"

text \<open>
  The traversal of \<^verbatim>\<open>NodeTransformer\<close>: every child field is visited in field order and
  replaced by the result; \<^verbatim>\<open>visit_BinOp\<close> is the only method the folder overrides. An
  exception raised while folding a child leaves the traversal at once.
\<close>

fun cf_expr :: "'f float_ops \<Rightarrow> 'f expr \<Rightarrow> error + 'f expr"
  and cf_exprs :: "'f float_ops \<Rightarrow> 'f expr list \<Rightarrow> error + 'f expr list" where
  "cf_expr F (Constant c) = Inr (Constant c)"
| "cf_expr F (Name x) = Inr (Name x)"
| "cf_expr F (BinOp l op r) =
     bind_err (cf_expr F l) (\<lambda>l'. bind_err (cf_expr F r) (\<lambda>r'. fold_match F l' op r'))"
| "cf_expr F (UnaryOp op e) = bind_err (cf_expr F e) (\<lambda>e'. Inr (UnaryOp op e'))"
| "cf_expr F (Compare l ops cs) =
     bind_err (cf_expr F l) (\<lambda>l'. bind_err (cf_exprs F cs) (\<lambda>cs'. Inr (Compare l' ops cs')))"
| "cf_expr F (Call f args) =
     bind_err (cf_expr F f) (\<lambda>f'. bind_err (cf_exprs F args) (\<lambda>args'. Inr (Call f' args')))"
| "cf_exprs F [] = Inr []"
| "cf_exprs F (e # es) =
     bind_err (cf_expr F e) (\<lambda>e'. bind_err (cf_exprs F es) (\<lambda>es'. Inr (e' # es')))"

fun cf_stmt :: "'f float_ops \<Rightarrow> 'f stmt \<Rightarrow> error + 'f stmt"
  and cf_stmts :: "'f float_ops \<Rightarrow> 'f stmt list \<Rightarrow> error + 'f stmt list" where
  "cf_stmt F (FunctionDef name body) =
     bind_err (cf_stmts F body) (\<lambda>body'. Inr (FunctionDef name body'))"
| "cf_stmt F (Assign targets v) =
     bind_err (cf_exprs F targets) (\<lambda>targets'. bind_err (cf_expr F v) (\<lambda>v'.
       Inr (Assign targets' v')))"
| "cf_stmt F (If_stmt test body orelse) =
     bind_err (cf_expr F test) (\<lambda>test'. bind_err (cf_stmts F body) (\<lambda>body'.
       bind_err (cf_stmts F orelse) (\<lambda>orelse'. Inr (If_stmt test' body' orelse'))))"
| "cf_stmt F (Return None) = Inr (Return None)"
| "cf_stmt F (Return (Some v)) = bind_err (cf_expr F v) (\<lambda>v'. Inr (Return (Some v')))"
| "cf_stmt F (Expr v) = bind_err (cf_expr F v) (\<lambda>v'. Inr (Expr v'))"
| "cf_stmts F [] = Inr []"
| "cf_stmts F (s # ss) =
     bind_err (cf_stmt F s) (\<lambda>s'. bind_err (cf_stmts F ss) (\<lambda>ss'. Inr (s' # ss')))"

fun cf_module :: "'f float_ops \<Rightarrow> 'f module \<Rightarrow> error + 'f module" where
  "cf_module F (Module body) = bind_err (cf_stmts F body) (\<lambda>body'. Inr (Module body'))"

section \<open>Strength reduction\<close>

text \<open>
  The class pattern \<^verbatim>\<open>Constant(k)\<close> with a number \<open>k\<close> matches a \<^verbatim>\<open>Constant\<close> node whose
  value compares equal to \<open>k\<close> (\<^verbatim>\<open>value == k\<close>). Equality is Python's: \<^verbatim>\<open>False == 0\<close>,
  \<^verbatim>\<open>True == 1\<close> and \<^verbatim>\<open>2.0 == 2\<close> hold; a string or \<^verbatim>\<open>None\<close> equals no number.
\<close>

fun const_eq :: "'f float_ops \<Rightarrow> 'f pyconst \<Rightarrow> int \<Rightarrow> bool" where
  "const_eq F (CInt i) k = (i = k)"
| "const_eq F (CBool b) k = ((if b then 1 else 0) = k)"
| "const_eq F (CFloat x) k = feq_int F x k"
| "const_eq F (CStr s) k = False"
| "const_eq F CNone k = False"

fun is_Constant :: "'f float_ops \<Rightarrow> int \<Rightarrow> 'f expr \<Rightarrow> bool" where
  "is_Constant F k (Constant c) = const_eq F c k"
| "is_Constant F k e = False"

text \<open>
  The \<^verbatim>\<open>match\<close> statement of \<^verbatim>\<open>StrengthReducer.visit_BinOp\<close> on the visited children
  \<open>l\<close> and \<open>r\<close>: the cases in the order of the source, each alternative of an
  or-pattern in its order, the first that matches decides.
\<close>

definition reduce_match :: "'f float_ops \<Rightarrow> 'f expr \<Rightarrow> operator \<Rightarrow> 'f expr \<Rightarrow> 'f expr" where
  "reduce_match F l op r =
     (if op = Mod \<and> is_Constant F 2 r then BinOp l BitAnd (Constant (CInt 1))
      else if op = Add \<and> is_Constant F 0 l then r
      else if op = Add \<and> is_Constant F 0 r then l
      else if op = Mult \<and> is_Constant F 1 l then r
      else if op = Mult \<and> is_Constant F 1 r then l
      else if op = Sub \<and> is_Constant F 0 l then UnaryOp USub r
      else BinOp l op r)"

fun sr_expr :: "'f float_ops \<Rightarrow> 'f expr \<Rightarrow> 'f expr" where
  "sr_expr F (Constant c) = Constant c"
| "sr_expr F (Name x) = Name x"
| "sr_expr F (BinOp l op r) = reduce_match F (sr_expr F l) op (sr_expr F r)"
| "sr_expr F (UnaryOp op e) = UnaryOp op (sr_expr F e)"
| "sr_expr F (Compare l ops cs) = Compare (sr_expr F l) ops (map (sr_expr F) cs)"
| "sr_expr F (Call f args) = Call (sr_expr F f) (map (sr_expr F) args)"

fun sr_stmt :: "'f float_ops \<Rightarrow> 'f stmt \<Rightarrow> 'f stmt" where
  "sr_stmt F (FunctionDef name body) = FunctionDef name (map (sr_stmt F) body)"
| "sr_stmt F (Assign targets v) = Assign (map (sr_expr F) targets) (sr_expr F v)"
| "sr_stmt F (If_stmt test body orelse) =
     If_stmt (sr_expr F test) (map (sr_stmt F) body) (map (sr_stmt F) orelse)"
| "sr_stmt F (Return v) = Return (map_option (sr_expr F) v)"
| "sr_stmt F (Expr v) = Expr (sr_expr F v)"

fun sr_module :: "'f float_ops \<Rightarrow> 'f module \<Rightarrow> 'f module" where
  "sr_module F (Module body) = Module (map (sr_stmt F) body)"

text \<open>
  Python's \<^verbatim>\<open>%\<close> and \<^verbatim>\<open>&\<close> on integers: the remainder has the sign of the divisor and
  a zero divisor raises; \<^verbatim>\<open>&\<close> works on the two's complement of unbounded integers.
\<close>

definition int_mod :: "int \<Rightarrow> int \<Rightarrow> error + int" where
  "int_mod i j = (if j = 0 then Inl ZeroDivisionError else Inr (i mod j))"

definition int_bitand :: "int \<Rightarrow> int \<Rightarrow> error + int" where
  "int_bitand i j = Inr (and i j)"

text \<open>
  Evaluation of the integer expressions the first rule is about: a name bound to an
  integer, an integer constant, and \<^verbatim>\<open>%\<close> or \<^verbatim>\<open>&\<close> of two such expressions. \<open>None\<close>
  marks an expression outside this fragment.
\<close>

fun int_eval :: "(string \<Rightarrow> int) \<Rightarrow> 'f expr \<Rightarrow> (error + int) option" where
  "int_eval env (Name x) = Some (Inr (env x))"
| "int_eval env (Constant (CInt i)) = Some (Inr i)"
| "int_eval env (BinOp l op r) =
     (case (int_eval env l, int_eval env r) of
        (Some (Inr i), Some (Inr j)) \<Rightarrow>
          (if op = Mod then Some (int_mod i j)
           else if op = BitAnd then Some (int_bitand i j)
           else None)
      | (Some (Inl e), _) \<Rightarrow> Some (Inl e)
      | (Some (Inr i), Some (Inl e)) \<Rightarrow> Some (Inl e)
      | _ \<Rightarrow> None)"
| "int_eval env e = None"

section \<open>Dead-branch elimination\<close>

text \<open>
  \<^verbatim>\<open>DeadBranchEliminator.visit_If\<close> visits the children, then returns the list
  \<^verbatim>\<open>node.body\<close> or \<^verbatim>\<open>node.orelse\<close> when the test is a constant, and the node otherwise.
  The traversal of the enclosing statement list extends the new list by a returned list
  and appends a returned node, so every visit is modelled as the list of statements that
  takes the place of the visited one. An expression holds no statement: the traversal
  returns it as it is.
\<close>

fun dbe_stmt :: "'f float_ops \<Rightarrow> 'f stmt \<Rightarrow> 'f stmt list"
  and dbe_stmts :: "'f float_ops \<Rightarrow> 'f stmt list \<Rightarrow> 'f stmt list" where
  "dbe_stmt F (If_stmt test body orelse) =
     (case test of
        Constant condition \<Rightarrow>
          (if truthy F condition then dbe_stmts F body else dbe_stmts F orelse)
      | _ \<Rightarrow> [If_stmt test (dbe_stmts F body) (dbe_stmts F orelse)])"
| "dbe_stmt F (FunctionDef name body) = [FunctionDef name (dbe_stmts F body)]"
| "dbe_stmt F (Assign targets v) = [Assign targets v]"
| "dbe_stmt F (Return v) = [Return v]"
| "dbe_stmt F (Expr v) = [Expr v]"
| "dbe_stmts F [] = []"
| "dbe_stmts F (s # ss) = dbe_stmt F s @ dbe_stmts F ss"

fun dbe_module :: "'f float_ops \<Rightarrow> 'f module \<Rightarrow> 'f module" where
  "dbe_module F (Module body) = Module (dbe_stmts F body)"

section \<open>Dead-function elimination\<close>

subsection \<open>The call graph\<close>

text \<open>
  The graph is a \<^verbatim>\<open>networkx.DiGraph\<close>: a set of nodes and a set of directed edges, both
  kept in insertion order. Adding an edge adds its two ends as nodes.
\<close>

record graph =
  nodes :: "string list"
  edges :: "(string \<times> string) list"

definition add_node :: "string \<Rightarrow> graph \<Rightarrow> graph" where
  "add_node n g = (if n \<in> set (nodes g) then g else g\<lparr>nodes := nodes g @ [n]\<rparr>)"

definition add_edge :: "string \<Rightarrow> string \<Rightarrow> graph \<Rightarrow> graph" where
  "add_edge a b g =
     (let g' = add_node b (add_node a g)
      in if (a, b) \<in> set (edges g') then g' else g'\<lparr>edges := edges g' @ [(a, b)]\<rparr>)"

text \<open>\<^verbatim>\<open>DeadFunctionIdentifier.__init__\<close>: the graph starts with the node \<^verbatim>\<open>"start"\<close>, which is also the first current function.\<close>

definition start :: string where
  "start = ''start''"

definition init_graph :: graph where
  "init_graph = \<lparr>nodes = [start], edges = []\<rparr>"

text \<open>
  The visitor. \<open>cur\<close> is the name bound to \<^verbatim>\<open>current_fn\<close> by the pattern of
  \<^verbatim>\<open>visit_Call\<close>: the name of the function definition being visited, or \<^verbatim>\<open>"start"\<close>.
  \<^verbatim>\<open>visit_Call\<close> adds an edge when the callee is a plain name, then visits the callee and
  the arguments; \<^verbatim>\<open>visit_FunctionDef\<close> adds the node, visits the body with the function as
  current function and restores the previous one. Every other node is visited field by
  field.
\<close>

fun dfi_expr :: "string \<Rightarrow> 'f expr \<Rightarrow> graph \<Rightarrow> graph"
  and dfi_exprs :: "string \<Rightarrow> 'f expr list \<Rightarrow> graph \<Rightarrow> graph" where
  "dfi_expr cur (Constant c) g = g"
| "dfi_expr cur (Name x) g = g"
| "dfi_expr cur (BinOp l op r) g = dfi_expr cur r (dfi_expr cur l g)"
| "dfi_expr cur (UnaryOp op e) g = dfi_expr cur e g"
| "dfi_expr cur (Compare l ops cs) g = dfi_exprs cur cs (dfi_expr cur l g)"
| "dfi_expr cur (Call func args) g =
     dfi_exprs cur args (dfi_expr cur func
       (case func of Name target \<Rightarrow> add_edge cur target g | _ \<Rightarrow> g))"
| "dfi_exprs cur [] g = g"
| "dfi_exprs cur (e # es) g = dfi_exprs cur es (dfi_expr cur e g)"

fun dfi_stmt :: "string \<Rightarrow> 'f stmt \<Rightarrow> graph \<Rightarrow> graph"
  and dfi_stmts :: "string \<Rightarrow> 'f stmt list \<Rightarrow> graph \<Rightarrow> graph" where
  "dfi_stmt cur (FunctionDef name body) g = dfi_stmts name body (add_node name g)"
| "dfi_stmt cur (Assign targets v) g = dfi_expr cur v (dfi_exprs cur targets g)"
| "dfi_stmt cur (If_stmt test body orelse) g =
     dfi_stmts cur orelse (dfi_stmts cur body (dfi_expr cur test g))"
| "dfi_stmt cur (Return None) g = g"
| "dfi_stmt cur (Return (Some v)) g = dfi_expr cur v g"
| "dfi_stmt cur (Expr v) g = dfi_expr cur v g"
| "dfi_stmts cur [] g = g"
| "dfi_stmts cur (s # ss) g = dfi_stmts cur ss (dfi_stmt cur s g)"

fun call_graph :: "'f module \<Rightarrow> graph" where
  "call_graph (Module body) = dfi_stmts start body init_graph"

text \<open>\<^verbatim>\<open>networkx.descendants\<close>: the nodes reachable from the source along edges, the source itself left out.\<close>

definition descendants :: "graph \<Rightarrow> string \<Rightarrow> string set" where
  "descendants g s = (set (edges g))\<^sup>+ `` {s} - {s}"

definition reachable :: "graph \<Rightarrow> string set" where
  "reachable g = descendants g start \<union> {start}"

definition get_unreachable :: "'f module \<Rightarrow> string set" where
  "get_unreachable m = (let g = call_graph m in set (nodes g) - reachable g)"

subsection \<open>The rewrite\<close>

text \<open>
  \<^verbatim>\<open>FunctionEliminator.visit_FunctionDef\<close> returns \<^verbatim>\<open>None\<close> for a function whose name is
  in \<^verbatim>\<open>fns\<close>, which drops the statement from the enclosing list, and visits the children
  of any other.
\<close>

fun fe_stmt :: "string set \<Rightarrow> 'f stmt \<Rightarrow> 'f stmt list"
  and fe_stmts :: "string set \<Rightarrow> 'f stmt list \<Rightarrow> 'f stmt list" where
  "fe_stmt fns (FunctionDef name body) =
     (if name \<in> fns then [] else [FunctionDef name (fe_stmts fns body)])"
| "fe_stmt fns (Assign targets v) = [Assign targets v]"
| "fe_stmt fns (If_stmt test body orelse) = [If_stmt test (fe_stmts fns body) (fe_stmts fns orelse)]"
| "fe_stmt fns (Return v) = [Return v]"
| "fe_stmt fns (Expr v) = [Expr v]"
| "fe_stmts fns [] = []"
| "fe_stmts fns (s # ss) = fe_stmt fns s @ fe_stmts fns ss"

fun function_eliminator :: "string set \<Rightarrow> 'f module \<Rightarrow> 'f module" where
  "function_eliminator fns (Module body) = Module (fe_stmts fns body)"

text \<open>\<^verbatim>\<open>DeadFunctionEliminator.visit\<close>\<close>

definition dead_function_eliminator :: "'f module \<Rightarrow> 'f module" where
  "dead_function_eliminator m = function_eliminator (get_unreachable m) m"

section \<open>The passes on a store of node objects\<close>

text \<open>
  The passes above are functions on tree values. Python's nodes are objects, and
  \<^verbatim>\<open>NodeTransformer.generic_visit\<close> works on them in place: it visits the children of a
  node, assigns each visited child back to its field (\<^verbatim>\<open>setattr\<close>) and overwrites each
  list of children (\<^verbatim>\<open>old_value[:] = new_values\<close>); both visitors of binary operations
  and the visitor of conditionals call it and then read the fields of the very node they
  were given. The store model keeps this: a store is a list of node objects, a reference
  is an index into it, a child is a reference, and a new node is appended.

  A visit needs a fuel that bounds the depth of the traversal; \<open>None\<close> is a traversal
  that does not finish within it, or that leaves the model: a reference outside the
  store, or a single child whose visit returns no node or a list. An exception of the
  folder is \<open>Some (Inl e)\<close>.
\<close>

type_synonym ref = nat

datatype 'f node =
    OConstant "'f pyconst"
  | OName string
  | OBinOp ref operator ref
  | OUnaryOp unaryop ref
  | OCompare ref "cmpop list" "ref list"
  | OCall ref "ref list"
  | OFunctionDef string "ref list"
  | OAssign "ref list" ref
  | OIf ref "ref list" "ref list"
  | OReturn "ref option"
  | OExpr ref
  | OModule "ref list"

type_synonym 'f store = "'f node list"

datatype visited = RNone | RNode ref | RList "ref list"

datatype transformer =
    ConstantFolder
  | StrengthReducer
  | DeadBranchEliminator
  | FunctionEliminator "string set"

definition obind :: "(error + 'a) option \<Rightarrow> ('a \<Rightarrow> (error + 'b) option) \<Rightarrow> (error + 'b) option" where
  "obind m f = (case m of None \<Rightarrow> None | Some (Inl e) \<Rightarrow> Some (Inl e) | Some (Inr x) \<Rightarrow> f x)"

definition as_node :: "(error + 'f store \<times> visited) option \<Rightarrow> (error + 'f store \<times> ref) option" where
  "as_node m = obind m (\<lambda>(h, v). case v of RNode c \<Rightarrow> Some (Inr (h, c)) | _ \<Rightarrow> None)"

fun new_values :: "visited \<Rightarrow> ref list" where
  "new_values RNone = []"
| "new_values (RNode c) = [c]"
| "new_values (RList cs) = cs"

definition holds_Constant :: "'f float_ops \<Rightarrow> 'f store \<Rightarrow> int \<Rightarrow> ref \<Rightarrow> bool" where
  "holds_Constant F h k a =
     (a < length h \<and> (case h ! a of OConstant c \<Rightarrow> const_eq F c k | _ \<Rightarrow> False))"

definition cf_leave :: "'f float_ops \<Rightarrow> 'f store \<Rightarrow> ref \<Rightarrow> (error + 'f store \<times> visited) option" where
  "cf_leave F h r =
     (case h ! r of
        OBinOp l op rt \<Rightarrow>
          (if l < length h \<and> rt < length h then
             (case (h ! l, h ! rt) of
                (OConstant left, OConstant right) \<Rightarrow>
                  (case py_apply F op left right of
                     Some (Inr v) \<Rightarrow> Some (Inr (h @ [OConstant v], RNode (length h)))
                   | Some (Inl e) \<Rightarrow> Some (Inl e)
                   | None \<Rightarrow> Some (Inr (h, RNode r)))
              | _ \<Rightarrow> Some (Inr (h, RNode r)))
           else None)
      | _ \<Rightarrow> Some (Inr (h, RNode r)))"

definition sr_leave :: "'f float_ops \<Rightarrow> 'f store \<Rightarrow> ref \<Rightarrow> (error + 'f store \<times> visited) option" where
  "sr_leave F h r =
     (case h ! r of
        OBinOp l op rt \<Rightarrow>
          (if op = Mod \<and> holds_Constant F h 2 rt
             then Some (Inr (h @ [OConstant (CInt 1), OBinOp l BitAnd (length h)], RNode (Suc (length h))))
           else if op = Add \<and> holds_Constant F h 0 l then Some (Inr (h, RNode rt))
           else if op = Add \<and> holds_Constant F h 0 rt then Some (Inr (h, RNode l))
           else if op = Mult \<and> holds_Constant F h 1 l then Some (Inr (h, RNode rt))
           else if op = Mult \<and> holds_Constant F h 1 rt then Some (Inr (h, RNode l))
           else if op = Sub \<and> holds_Constant F h 0 l
             then Some (Inr (h @ [OUnaryOp USub rt], RNode (length h)))
           else Some (Inr (h, RNode r)))
      | _ \<Rightarrow> Some (Inr (h, RNode r)))"

definition dbe_leave :: "'f float_ops \<Rightarrow> 'f store \<Rightarrow> ref \<Rightarrow> (error + 'f store \<times> visited) option" where
  "dbe_leave F h r =
     (case h ! r of
        OIf test body orelse \<Rightarrow>
          (if test < length h then
             (case h ! test of
                OConstant condition \<Rightarrow>
                  Some (Inr (h, RList (if truthy F condition then body else orelse)))
              | _ \<Rightarrow> Some (Inr (h, RNode r)))
           else None)
      | _ \<Rightarrow> Some (Inr (h, RNode r)))"

fun leave :: "'f float_ops \<Rightarrow> transformer \<Rightarrow> 'f store \<Rightarrow> ref \<Rightarrow> (error + 'f store \<times> visited) option" where
  "leave F ConstantFolder h r = cf_leave F h r"
| "leave F StrengthReducer h r = sr_leave F h r"
| "leave F DeadBranchEliminator h r = dbe_leave F h r"
| "leave F (FunctionEliminator fns) h r = Some (Inr (h, RNode r))"

fun drops :: "transformer \<Rightarrow> 'f node \<Rightarrow> bool" where
  "drops (FunctionEliminator fns) (OFunctionDef name body) = (name \<in> fns)"
| "drops T n = False"

fun visit :: "'f float_ops \<Rightarrow> transformer \<Rightarrow> nat \<Rightarrow> 'f store \<Rightarrow> ref \<Rightarrow> (error + 'f store \<times> visited) option"
  and generic_visit :: "'f float_ops \<Rightarrow> transformer \<Rightarrow> nat \<Rightarrow> 'f store \<Rightarrow> ref \<Rightarrow> (error + 'f store) option"
  and visit_list :: "'f float_ops \<Rightarrow> transformer \<Rightarrow> nat \<Rightarrow> 'f store \<Rightarrow> ref list \<Rightarrow> (error + 'f store \<times> ref list) option" where
  "visit F T 0 h r = None"
| "visit F T (Suc n) h r =
     (if length h \<le> r then None
      else if drops T (h ! r) then Some (Inr (h, RNone))
      else obind (generic_visit F T n h r) (\<lambda>h'. leave F T h' r))"
| "generic_visit F T n h r =
     (case h ! r of
        OConstant c \<Rightarrow> Some (Inr h)
      | OName x \<Rightarrow> Some (Inr h)
      | OBinOp l op rt \<Rightarrow>
          obind (as_node (visit F T n h l)) (\<lambda>(h1, l').
          obind (as_node (visit F T n (h1[r := OBinOp l' op rt]) rt)) (\<lambda>(h2, rt').
          Some (Inr (h2[r := OBinOp l' op rt']))))
      | OUnaryOp op e \<Rightarrow>
          obind (as_node (visit F T n h e)) (\<lambda>(h1, e').
          Some (Inr (h1[r := OUnaryOp op e'])))
      | OCompare l ops cs \<Rightarrow>
          obind (as_node (visit F T n h l)) (\<lambda>(h1, l').
          obind (visit_list F T n (h1[r := OCompare l' ops cs]) cs) (\<lambda>(h2, cs').
          Some (Inr (h2[r := OCompare l' ops cs']))))
      | OCall func args \<Rightarrow>
          obind (as_node (visit F T n h func)) (\<lambda>(h1, func').
          obind (visit_list F T n (h1[r := OCall func' args]) args) (\<lambda>(h2, args').
          Some (Inr (h2[r := OCall func' args']))))
      | OFunctionDef name body \<Rightarrow>
          obind (visit_list F T n h body) (\<lambda>(h1, body').
          Some (Inr (h1[r := OFunctionDef name body'])))
      | OAssign targets v \<Rightarrow>
          obind (visit_list F T n h targets) (\<lambda>(h1, targets').
          obind (as_node (visit F T n (h1[r := OAssign targets' v]) v)) (\<lambda>(h2, v').
          Some (Inr (h2[r := OAssign targets' v']))))
      | OIf test body orelse \<Rightarrow>
          obind (as_node (visit F T n h test)) (\<lambda>(h1, test').
          obind (visit_list F T n (h1[r := OIf test' body orelse]) body) (\<lambda>(h2, body').
          obind (visit_list F T n (h2[r := OIf test' body' orelse]) orelse) (\<lambda>(h3, orelse').
          Some (Inr (h3[r := OIf test' body' orelse'])))))
      | OReturn None \<Rightarrow> Some (Inr h)
      | OReturn (Some v) \<Rightarrow>
          obind (as_node (visit F T n h v)) (\<lambda>(h1, v').
          Some (Inr (h1[r := OReturn (Some v')])))
      | OExpr v \<Rightarrow>
          obind (as_node (visit F T n h v)) (\<lambda>(h1, v').
          Some (Inr (h1[r := OExpr v'])))
      | OModule body \<Rightarrow>
          obind (visit_list F T n h body) (\<lambda>(h1, body').
          Some (Inr (h1[r := OModule body']))))"
| "visit_list F T n h [] = Some (Inr (h, []))"
| "visit_list F T n h (c # cs) =
     obind (visit F T n h c) (\<lambda>(h1, v).
     obind (visit_list F T n h1 cs) (\<lambda>(h2, vs).
     Some (Inr (h2, new_values v @ vs))))"

text \<open>The objects of the module \<open>y = 1 + 1\<close>, and the store after the folder has visited it.\<close>

definition cex_store :: "'f store" where
  "cex_store =
     [OConstant (CInt 1), OConstant (CInt 1), OBinOp 0 Add 1, OName ''y'', OAssign [3] 2, OModule [4]]"

definition cex_after :: "'f store" where
  "cex_after =
     [OConstant (CInt 1), OConstant (CInt 1), OBinOp 0 Add 1, OName ''y'', OAssign [3] 6, OModule [4],
      OConstant (CInt 2)]"

text \<open>
  What a pass leaves of a node object: its class and the fields that are no children.
  \<open>grows h h'\<close>: every object of \<open>h\<close> is still there in \<open>h'\<close>, with the same class and
  the same such fields.
\<close>

fun same_kind :: "'f node \<Rightarrow> 'f node \<Rightarrow> bool" where
  "same_kind (OConstant c) n = (n = OConstant c)"
| "same_kind (OName x) n = (n = OName x)"
| "same_kind (OBinOp l op r) n = (case n of OBinOp l' op' r' \<Rightarrow> op' = op | _ \<Rightarrow> False)"
| "same_kind (OUnaryOp op e) n = (case n of OUnaryOp op' e' \<Rightarrow> op' = op | _ \<Rightarrow> False)"
| "same_kind (OCompare l ops cs) n = (case n of OCompare l' ops' cs' \<Rightarrow> ops' = ops | _ \<Rightarrow> False)"
| "same_kind (OCall f args) n = (case n of OCall f' args' \<Rightarrow> True | _ \<Rightarrow> False)"
| "same_kind (OFunctionDef name body) n = (case n of OFunctionDef name' body' \<Rightarrow> name' = name | _ \<Rightarrow> False)"
| "same_kind (OAssign ts v) n = (case n of OAssign ts' v' \<Rightarrow> True | _ \<Rightarrow> False)"
| "same_kind (OIf t b e) n = (case n of OIf t' b' e' \<Rightarrow> True | _ \<Rightarrow> False)"
| "same_kind (OReturn v) n = (case n of OReturn v' \<Rightarrow> True | _ \<Rightarrow> False)"
| "same_kind (OExpr v) n = (case n of OExpr v' \<Rightarrow> True | _ \<Rightarrow> False)"
| "same_kind (OModule body) n = (case n of OModule body' \<Rightarrow> True | _ \<Rightarrow> False)"

definition grows :: "'f store \<Rightarrow> 'f store \<Rightarrow> bool" where
  "grows h h' = (length h \<le> length h' \<and> (\<forall>a<length h. same_kind (h ! a) (h' ! a)))"

section \<open>Notions the properties are stated with\<close>

text \<open>
  The value of a nested constant expression: constants combined by the six operators,
  every operation defined. \<open>None\<close> for any other expression.
\<close>

fun const_value :: "'f float_ops \<Rightarrow> 'f expr \<Rightarrow> 'f pyconst option" where
  "const_value F (Constant c) = Some c"
| "const_value F (BinOp l op r) =
     (case (const_value F l, const_value F r) of
        (Some a, Some b) \<Rightarrow> (case py_apply F op a b of Some (Inr v) \<Rightarrow> Some v | _ \<Rightarrow> None)
      | _ \<Rightarrow> None)"
| "const_value F _ = None"




text \<open>Whether a statement holds, at any depth, a conditional whose test is a constant.\<close>

fun const_if_stmt :: "'f stmt \<Rightarrow> bool"
  and const_if_stmts :: "'f stmt list \<Rightarrow> bool" where
  "const_if_stmt (If_stmt test body orelse) =
     ((case test of Constant c \<Rightarrow> True | _ \<Rightarrow> False) \<or> const_if_stmts body \<or> const_if_stmts orelse)"
| "const_if_stmt (FunctionDef name body) = const_if_stmts body"
| "const_if_stmt (Assign targets v) = False"
| "const_if_stmt (Return v) = False"
| "const_if_stmt (Expr v) = False"
| "const_if_stmts [] = False"
| "const_if_stmts (s # ss) = (const_if_stmt s \<or> const_if_stmts ss)"

text \<open>The names of the function definitions of a statement, at any depth.\<close>

fun defs_stmt :: "'f stmt \<Rightarrow> string set"
  and defs_stmts :: "'f stmt list \<Rightarrow> string set" where
  "defs_stmt (FunctionDef name body) = insert name (defs_stmts body)"
| "defs_stmt (Assign targets v) = {}"
| "defs_stmt (If_stmt test body orelse) = defs_stmts body \<union> defs_stmts orelse"
| "defs_stmt (Return v) = {}"
| "defs_stmt (Expr v) = {}"
| "defs_stmts [] = {}"
| "defs_stmts (s # ss) = defs_stmt s \<union> defs_stmts ss"

fun defs_module :: "'f module \<Rightarrow> string set" where
  "defs_module (Module body) = defs_stmts body"

fun body_of :: "'f module \<Rightarrow> 'f stmt list" where
  "body_of (Module body) = body"

text \<open>The expressions a statement carries, those of nested statements included.\<close>

fun exprs_stmt :: "'f stmt \<Rightarrow> 'f expr list"
  and exprs_stmts :: "'f stmt list \<Rightarrow> 'f expr list" where
  "exprs_stmt (FunctionDef name body) = exprs_stmts body"
| "exprs_stmt (Assign targets v) = targets @ [v]"
| "exprs_stmt (If_stmt test body orelse) = test # exprs_stmts body @ exprs_stmts orelse"
| "exprs_stmt (Return None) = []"
| "exprs_stmt (Return (Some v)) = [v]"
| "exprs_stmt (Expr v) = [v]"
| "exprs_stmts [] = []"
| "exprs_stmts (s # ss) = exprs_stmt s @ exprs_stmts ss"




text \<open>The call edges whose callee is defined somewhere in the module.\<close>

definition defined_edges :: "'f module \<Rightarrow> (string \<times> string) set" where
  "defined_edges m = set (filter (\<lambda>(a, b). b \<in> defs_module m) (edges (call_graph m)))"



text \<open>
  A dead function and a live one, each calling a name no function definition binds.
\<close>

definition undefined_callee_module :: "'f module" where
  "undefined_callee_module = Module
     [FunctionDef ''dead'' [Expr (Call (Name ''print'') [Constant (CStr ''x'')])],
      FunctionDef ''main'' [Expr (Call (Name ''log'') [])],
      Expr (Call (Name ''main'') []),
      Expr (Call (Name ''exit'') [])]"

section \<open>Properties of constant folding\<close>

subsection \<open>Auxiliary facts\<close>


lemma bind_err_simps [simp]:
  "bind_err (Inl e) f = Inl e"
  "bind_err (Inr x) f = f x"
  by (simp_all add: bind_err_def)

lemma bind_err_eq_Inr [simp]:
  "bind_err m f = Inr y \<longleftrightarrow> (\<exists>x. m = Inr x \<and> f x = Inr y)"
  by (cases m) simp_all

lemma bind_err_eq_Inl:
  "bind_err m f = Inl e \<longleftrightarrow> (m = Inl e \<or> (\<exists>x. m = Inr x \<and> f x = Inl e))"
  by (cases m) simp_all

lemma fold_match_cases:
  "fold_match F l op r =
     (case l of
        Constant a \<Rightarrow>
          (case r of
             Constant b \<Rightarrow>
               (case py_apply F op a b of Some res \<Rightarrow> mk_Constant res | None \<Rightarrow> Inr (BinOp l op r))
           | _ \<Rightarrow> Inr (BinOp l op r))
      | _ \<Rightarrow> Inr (BinOp l op r))"
  apply (cases l; simp)
  apply (cases r; cases op; simp add: mk_Constant_def)
  done

lemma fold_match_apply:
  "py_apply F op l r = Some res \<Longrightarrow> fold_match F (Constant l) op (Constant r) = mk_Constant res"
  by (simp add: fold_match_cases)

lemma fold_match_other:
  "(\<forall>a. l \<noteq> Constant a) \<or> (\<forall>b. r \<noteq> Constant b) \<or> op \<notin> {Add, Sub, Mult, Div, And, Or}
   \<Longrightarrow> fold_match F l op r = Inr (BinOp l op r)"
  by (cases op) (auto simp add: fold_match_cases split: expr.splits)

lemma fold_match_result:
  "fold_match F l op r = Inr e \<Longrightarrow> (\<exists>v. e = Constant v) \<or> (e = BinOp l op r \<and> fold_match F l op r = Inr (BinOp l op r))"
  by (auto simp add: fold_match_cases mk_Constant_def split: expr.splits option.splits)

lemma cf_const_value:
  "const_value F e = Some v \<Longrightarrow> cf_expr F e = Inr (Constant v)"
proof (induction e arbitrary: v)
  case (BinOp l op r)
  then show ?case
    by (auto split: option.splits sum.splits simp: fold_match_apply mk_Constant_def)
qed simp_all

lemma cf_idem_expr:
  "cf_expr F e = Inr e' \<Longrightarrow> cf_expr F e' = Inr e'"
  "cf_exprs F es = Inr es' \<Longrightarrow> cf_exprs F es' = Inr es'"
proof (induction F e and F es arbitrary: e' and es' rule: cf_expr_cf_exprs.induct)
  case (3 F l op r)
  from "3.prems" obtain l' r' where l: "cf_expr F l = Inr l'" and r: "cf_expr F r = Inr r'"
    and m: "fold_match F l' op r' = Inr e'" by auto
  from "3.IH"(1)[OF l] have ll: "cf_expr F l' = Inr l'" .
  from "3.IH"(2)[OF r] have rr: "cf_expr F r' = Inr r'" .
  from fold_match_result[OF m] show ?case
    using ll rr by auto
qed auto

lemma cf_idem_stmt:
  "cf_stmt F s = Inr s' \<Longrightarrow> cf_stmt F s' = Inr s'"
  "cf_stmts F ss = Inr ss' \<Longrightarrow> cf_stmts F ss' = Inr ss'"
proof (induction F s and F ss arbitrary: s' and ss' rule: cf_stmt_cf_stmts.induct)
  case (1 F name body)
  from "1.prems" obtain body' where b: "cf_stmts F body = Inr body'" and s: "s' = FunctionDef name body'"
    by auto
  from "1.IH"[OF b] show ?case by (simp add: s)
next
  case (2 F targets v)
  from "2.prems" obtain ts' v' where t: "cf_exprs F targets = Inr ts'" and v: "cf_expr F v = Inr v'"
    and s: "s' = Assign ts' v'" by auto
  from cf_idem_expr(2)[OF t] cf_idem_expr(1)[OF v] show ?case by (simp add: s)
next
  case (3 F test body orelse)
  from "3.prems" obtain t' b' o' where t: "cf_expr F test = Inr t'" and b: "cf_stmts F body = Inr b'"
    and e: "cf_stmts F orelse = Inr o'" and s: "s' = If_stmt t' b' o'" by auto
  from cf_idem_expr(1)[OF t] "3.IH"(1)[OF b] "3.IH"(2)[OF e] show ?case by (simp add: s)
next
  case (4 F)
  then show ?case by auto
next
  case (5 F v)
  from "5.prems" obtain v' where v: "cf_expr F v = Inr v'" and s: "s' = Return (Some v')" by auto
  from cf_idem_expr(1)[OF v] show ?case by (simp add: s)
next
  case (6 F v)
  from "6.prems" obtain v' where v: "cf_expr F v = Inr v'" and s: "s' = Expr v'" by auto
  from cf_idem_expr(1)[OF v] show ?case by (simp add: s)
next
  case (7 F)
  then show ?case by auto
next
  case (8 F s ss)
  from "8.prems" obtain t ts where t: "cf_stmt F s = Inr t" and ts: "cf_stmts F ss = Inr ts"
    and s: "ss' = t # ts" by auto
  from "8.IH"(1)[OF t] "8.IH"(2)[OF ts] show ?case by (simp add: s)
qed

lemma cf_idem: "cf_module F m = Inr m' \<Longrightarrow> cf_module F m' = Inr m'"
proof (cases m)
  case (Module body)
  assume "cf_module F m = Inr m'"
  with Module obtain body' where b: "cf_stmts F body = Inr body'" and m': "m' = Module body'"
    by auto
  from cf_idem_stmt(2)[OF b] show ?thesis by (simp add: m')
qed


lemma dbe_id:
  "\<not> const_if_stmt (s :: 'f stmt) \<Longrightarrow> dbe_stmt F s = [s]"
  "\<not> const_if_stmts (ss :: 'f stmt list) \<Longrightarrow> dbe_stmts F ss = ss"
  by (induction F s and F ss rule: dbe_stmt_dbe_stmts.induct) (auto split: expr.splits)

section \<open>Properties of the call graph and the function eliminator\<close>


lemma defs_stmts_append [simp]: "defs_stmts (xs @ ys) = defs_stmts xs \<union> defs_stmts ys"
  by (induction xs) auto

lemma nodes_add_node [simp]: "set (nodes (add_node n g)) = insert n (set (nodes g))"
  by (auto simp: add_node_def)

lemma edges_add_node [simp]: "edges (add_node n g) = edges g"
  by (simp add: add_node_def)

lemma nodes_add_edge [simp]: "set (nodes (add_edge a b g)) = insert a (insert b (set (nodes g)))"
  by (auto simp: add_edge_def Let_def)

lemma edges_add_edge [simp]: "set (edges (add_edge a b g)) = insert (a, b) (set (edges g))"
  by (auto simp: add_edge_def Let_def)

lemma dfi_expr_nodes:
  "S \<subseteq> set (nodes g) \<Longrightarrow> S \<subseteq> set (nodes (dfi_expr cur (e :: 'f expr) g))"
  "S \<subseteq> set (nodes g) \<Longrightarrow> S \<subseteq> set (nodes (dfi_exprs cur (es :: 'f expr list) g))"
proof (induction cur e g and cur es g rule: dfi_expr_dfi_exprs.induct)
  case (6 cur func args g)
  from "6.prems" have "S \<subseteq> set (nodes (case func of Name target \<Rightarrow> add_edge cur target g | _ \<Rightarrow> g))"
    by (cases func) auto
  then show ?case using "6.IH" by simp
qed simp_all

lemma dfi_expr_sources:
  "fst ` set (edges g) \<subseteq> insert cur S \<Longrightarrow>
     fst ` set (edges (dfi_expr cur (e :: 'f expr) g)) \<subseteq> insert cur S"
  "fst ` set (edges g) \<subseteq> insert cur S \<Longrightarrow>
     fst ` set (edges (dfi_exprs cur (es :: 'f expr list) g)) \<subseteq> insert cur S"
proof (induction cur e g and cur es g rule: dfi_expr_dfi_exprs.induct)
  case (6 cur func args g)
  from "6.prems" have "fst ` set (edges (case func of Name target \<Rightarrow> add_edge cur target g | _ \<Rightarrow> g))
          \<subseteq> insert cur S"
    by (cases func) auto
  then show ?case using "6.IH" by simp
qed simp_all

lemma dfi_stmt_nodes:
  "S \<subseteq> set (nodes g) \<Longrightarrow> S \<subseteq> set (nodes (dfi_stmt cur (s :: 'f stmt) g))"
  "S \<subseteq> set (nodes g) \<Longrightarrow> S \<subseteq> set (nodes (dfi_stmts cur (ss :: 'f stmt list) g))"
proof (induction cur s g and cur ss g rule: dfi_stmt_dfi_stmts.induct)
  case (1 cur name body g)
  from "1.prems" have "S \<subseteq> set (nodes (add_node name g))" by auto
  then show ?case using "1.IH" by simp
qed (simp_all add: dfi_expr_nodes)

lemma dfi_stmt_defs:
  "defs_stmt (s :: 'f stmt) \<subseteq> set (nodes (dfi_stmt cur s g))"
  "defs_stmts (ss :: 'f stmt list) \<subseteq> set (nodes (dfi_stmts cur ss g))"
proof (induction cur s g and cur ss g rule: dfi_stmt_dfi_stmts.induct)
  case (1 cur name body g)
  have "{name} \<subseteq> set (nodes (dfi_stmts name body (add_node name g)))"
    by (rule dfi_stmt_nodes) simp
  with 1 show ?case by simp
next
  case (3 cur test body orelse g)
  have "defs_stmts body \<subseteq> set (nodes (dfi_stmts cur orelse (dfi_stmts cur body (dfi_expr cur test g))))"
    by (rule dfi_stmt_nodes) (rule "3.IH")
  with "3.IH"(2) show ?case by simp
next
  case (8 cur s ss g)
  have "defs_stmt s \<subseteq> set (nodes (dfi_stmts cur ss (dfi_stmt cur s g)))"
    by (rule dfi_stmt_nodes) (rule "8.IH")
  with "8.IH"(2) show ?case by simp
qed simp_all

lemma dfi_expr_sources_in:
  "fst ` set (edges g) \<subseteq> A \<Longrightarrow> cur \<in> A \<Longrightarrow>
     fst ` set (edges (dfi_expr cur (e :: 'f expr) g)) \<subseteq> A"
  "fst ` set (edges g) \<subseteq> A \<Longrightarrow> cur \<in> A \<Longrightarrow>
     fst ` set (edges (dfi_exprs cur (es :: 'f expr list) g)) \<subseteq> A"
  using dfi_expr_sources[of g cur A] by (simp_all add: insert_absorb)

lemma dfi_stmt_sources:
  "fst ` set (edges g) \<subseteq> A \<Longrightarrow> cur \<in> A \<Longrightarrow> defs_stmt (s :: 'f stmt) \<subseteq> A \<Longrightarrow>
     fst ` set (edges (dfi_stmt cur s g)) \<subseteq> A"
  "fst ` set (edges g) \<subseteq> A \<Longrightarrow> cur \<in> A \<Longrightarrow> defs_stmts (ss :: 'f stmt list) \<subseteq> A \<Longrightarrow>
     fst ` set (edges (dfi_stmts cur ss g)) \<subseteq> A"
proof (induction cur s g and cur ss g rule: dfi_stmt_dfi_stmts.induct)
  case (1 cur name body g)
  then show ?case by simp
next
  case (3 cur test body orelse g)
  from "3.prems" have "fst ` set (edges (dfi_expr cur test g)) \<subseteq> A"
    by (intro dfi_expr_sources_in)
  with 3 show ?case by simp
qed (simp_all add: dfi_expr_sources_in)

lemma call_graph_defs: "defs_module m \<subseteq> set (nodes (call_graph m))"
  by (cases m) (simp add: dfi_stmt_defs)

lemma call_graph_sources:
  "(a, b) \<in> set (edges (call_graph m)) \<Longrightarrow> a = start \<or> a \<in> defs_module m"
proof (cases m)
  case (Module body)
  have "fst ` set (edges (dfi_stmts start body init_graph)) \<subseteq> insert start (defs_stmts body)"
    by (rule dfi_stmt_sources) (auto simp: init_graph_def)
  moreover assume "(a, b) \<in> set (edges (call_graph m))"
  ultimately show ?thesis using Module by force
qed

lemma reachable_rtrancl: "reachable g = (set (edges g))\<^sup>* `` {start}"
  by (auto simp: reachable_def descendants_def rtrancl_eq_or_trancl)


lemma restrict_reach:
  assumes src: "\<And>a b. (a, b) \<in> E \<Longrightarrow> a = s \<or> a \<in> D"
    and r: "(s, v) \<in> E\<^sup>*" and v: "v = s \<or> v \<in> D"
  shows "(s, v) \<in> {(a, b). (a, b) \<in> E \<and> b \<in> D}\<^sup>*"
  using r v
proof (induction rule: rtrancl_induct)
  case base
  show ?case by simp
next
  case (step y z)
  from src[OF step.hyps(2)] have y: "y = s \<or> y \<in> D" .
  from step.IH[OF y] have sy: "(s, y) \<in> {(a, b). (a, b) \<in> E \<and> b \<in> D}\<^sup>*" .
  from step.prems show ?case
  proof
    assume "z = s" then show ?thesis by simp
  next
    assume "z \<in> D"
    with step.hyps(2) have "(y, z) \<in> {(a, b). (a, b) \<in> E \<and> b \<in> D}" by simp
    with sy show ?thesis by (rule rtrancl_into_rtrancl)
  qed
qed


lemma fe_defs_subset:
  "defs_stmts (fe_stmt D (s :: 'f stmt)) \<subseteq> defs_stmt s"
  "defs_stmts (fe_stmts D (ss :: 'f stmt list)) \<subseteq> defs_stmts ss"
  by (induction D s and D ss rule: fe_stmt_fe_stmts.induct) auto

lemma fe_id:
  "defs_stmt (s :: 'f stmt) \<inter> D = {} \<Longrightarrow> fe_stmt D s = [s]"
  "defs_stmts (ss :: 'f stmt list) \<inter> D = {} \<Longrightarrow> fe_stmts D ss = ss"
  by (induction D s and D ss rule: fe_stmt_fe_stmts.induct) (auto simp: Int_Un_distrib2)

lemma fe_cong:
  "D \<inter> defs_stmt (s :: 'f stmt) = D' \<inter> defs_stmt s \<Longrightarrow> fe_stmt D s = fe_stmt D' s"
  "D \<inter> defs_stmts (ss :: 'f stmt list) = D' \<inter> defs_stmts ss \<Longrightarrow> fe_stmts D ss = fe_stmts D' ss"
proof (induction D s and D ss rule: fe_stmt_fe_stmts.induct)
  case (1 fns name body)
  from "1.prems" have n: "name \<in> fns \<longleftrightarrow> name \<in> D'" by auto
  show ?case
  proof (cases "name \<in> fns")
    case True with n show ?thesis by simp
  next
    case False
    with n "1.prems" have "fns \<inter> defs_stmts body = D' \<inter> defs_stmts body" by auto
    from "1.IH"[OF False this] False n show ?thesis by simp
  qed
next
  case (3 fns test body orelse)
  from "3.prems" have "fns \<inter> defs_stmts body = D' \<inter> defs_stmts body"
    and "fns \<inter> defs_stmts orelse = D' \<inter> defs_stmts orelse" by auto
  with "3.IH" show ?case by simp
next
  case (7 fns s ss)
  from "7.prems" have "fns \<inter> defs_stmt s = D' \<inter> defs_stmt s"
    and "fns \<inter> defs_stmts ss = D' \<inter> defs_stmts ss" by auto
  with "7.IH" show ?case by simp
qed simp_all

lemma fe_stmts_member:
  "(s :: 'f stmt) \<in> set ss \<Longrightarrow> set (fe_stmt D s) \<subseteq> set (fe_stmts D ss)"
  by (induction ss) auto





section \<open>The stated properties\<close>

text \<open>
  C5. One application of the constant folder replaces \<open>BinOp(Constant(l), op, Constant(r))\<close>
  by \<open>Constant(apply(op, l, r))\<close> for each of the six operators, \<open>apply\<close> being the native
  operation on the runtime type of the literals; dividing two integers gives a float, not a
  truncated integer. A binary operation of any other shape (an operand that is still no
  constant after its own visit, or another operator) keeps its shape, with the visited
  children. Because the children are visited first, one traversal folds a nested constant
  expression down to its value: \<open>y = 1 + 1 + 3\<close> becomes \<open>y = 5\<close> and \<open>y = 10 * 10\<close>
  becomes \<open>y = 100\<close>.
\<close>

theorem constant_folding_folds:
  "(py_apply F op l r = Some (Inr v) \<longrightarrow>
      cf_expr F (BinOp (Constant l) op (Constant r)) = Inr (Constant v))
   \<and> (j \<noteq> 0 \<longrightarrow> int_truediv F i j = Some x \<longrightarrow>
      cf_expr F (BinOp (Constant (CInt i)) Div (Constant (CInt j))) = Inr (Constant (CFloat x)))
   \<and> (cf_expr F a = Inr a' \<longrightarrow> cf_expr F b = Inr b' \<longrightarrow>
      ((\<forall>c. a' \<noteq> Constant c) \<or> (\<forall>c. b' \<noteq> Constant c) \<or> op' \<notin> {Add, Sub, Mult, Div, And, Or}) \<longrightarrow>
      cf_expr F (BinOp a op' b) = Inr (BinOp a' op' b'))
   \<and> (const_value F e = Some w \<longrightarrow> cf_expr F e = Inr (Constant w))
   \<and> cf_stmt F (Assign [Name ''y'']
        (BinOp (BinOp (Constant (CInt 1)) Add (Constant (CInt 1))) Add (Constant (CInt 3))))
       = Inr (Assign [Name ''y''] (Constant (CInt 5)))
   \<and> cf_stmt F (Assign [Name ''y''] (BinOp (Constant (CInt 10)) Mult (Constant (CInt 10))))
       = Inr (Assign [Name ''y''] (Constant (CInt 100)))"
proof (intro conjI impI)
  assume "py_apply F op l r = Some (Inr v)"
  then show "cf_expr F (BinOp (Constant l) op (Constant r)) = Inr (Constant v)"
    by (simp add: fold_match_apply mk_Constant_def)
next
  assume "j \<noteq> 0" and "int_truediv F i j = Some x"
  then show "cf_expr F (BinOp (Constant (CInt i)) Div (Constant (CInt j))) = Inr (Constant (CFloat x))"
    by (simp add: mk_Constant_def py_truediv_def)
next
  assume "cf_expr F a = Inr a'" and "cf_expr F b = Inr b'"
    and "(\<forall>c. a' \<noteq> Constant c) \<or> (\<forall>c. b' \<noteq> Constant c) \<or> op' \<notin> {Add, Sub, Mult, Div, And, Or}"
  then show "cf_expr F (BinOp a op' b) = Inr (BinOp a' op' b')"
    by (simp add: fold_match_other)
next
  assume "const_value F e = Some w"
  then show "cf_expr F e = Inr (Constant w)" by (rule cf_const_value)
next
  show "cf_stmt F (Assign [Name ''y'']
        (BinOp (BinOp (Constant (CInt 1)) Add (Constant (CInt 1))) Add (Constant (CInt 3))))
       = Inr (Assign [Name ''y''] (Constant (CInt 5)))"
    by (simp add: mk_Constant_def)
next
  show "cf_stmt F (Assign [Name ''y''] (BinOp (Constant (CInt 10)) Mult (Constant (CInt 10))))
       = Inr (Assign [Name ''y''] (Constant (CInt 100)))"
    by (simp add: mk_Constant_def py_mult_def)
qed

theorem constant_folding_folds_witness:
  "py_apply exact_floats Sub (CInt 7) (CBool True) = Some (Inr (CInt 6))
   \<and> cf_expr exact_floats (BinOp (Constant (CInt 7)) Sub (Constant (CBool True))) = Inr (Constant (CInt 6))
   \<and> (2::int) \<noteq> 0 \<and> int_truediv exact_floats 1 2 = Some (1 / 2)
   \<and> cf_expr exact_floats (BinOp (Constant (CInt 1)) Div (Constant (CInt 2)))
        = Inr (Constant (CFloat (1 / 2)))
   \<and> cf_expr exact_floats (Name ''x'') = Inr (Name ''x'')
   \<and> cf_expr exact_floats (BinOp (Constant (CInt 2)) Add (Constant (CInt 3))) = Inr (Constant (CInt 5))
   \<and> cf_expr exact_floats (BinOp (Name ''x'') Add (BinOp (Constant (CInt 2)) Add (Constant (CInt 3))))
        = Inr (BinOp (Name ''x'') Add (Constant (CInt 5)))
   \<and> const_value exact_floats (BinOp (Constant (CStr ''ab'')) Mult
          (BinOp (Constant (CInt 1)) Add (Constant (CInt 1)))) = Some (CStr ''abab'')
   \<and> cf_expr exact_floats (BinOp (Constant (CStr ''ab'')) Mult
          (BinOp (Constant (CInt 1)) Add (Constant (CInt 1)))) = Inr (Constant (CStr ''abab''))"
proof -
  have h1: "py_apply exact_floats Sub (CInt 7) (CBool True) = Some (Inr (CInt 6))"
    by (simp add: py_sub_def)
  have h2: "(2::int) \<noteq> 0" by simp
  have h3: "int_truediv exact_floats 1 2 = Some (1 / 2)" by (simp add: exact_floats_def)
  have h4: "cf_expr exact_floats (Name ''x'') = Inr (Name ''x'')" by simp
  have h5: "cf_expr exact_floats (BinOp (Constant (CInt 2)) Add (Constant (CInt 3))) = Inr (Constant (CInt 5))"
    by (simp add: mk_Constant_def)
  have h6: "(\<forall>c. Name ''x'' \<noteq> (Constant c :: rat expr)) \<or> (\<forall>c. Constant (CInt 5) \<noteq> (Constant c :: rat expr))
       \<or> Add \<notin> {Add, Sub, Mult, Div, And, Or}" by simp
  have h7: "const_value exact_floats (BinOp (Constant (CStr ''ab'')) Mult
          (BinOp (Constant (CInt 1)) Add (Constant (CInt 1)))) = Some (CStr ''abab'')"
    by (simp add: py_mult_def str_repeat_def numeral_2_eq_2)
  note T = constant_folding_folds [where F = exact_floats and op = Sub and l = "CInt 7"
      and r = "CBool True" and v = "CInt 6" and i = 1 and j = 2 and x = "1 / 2"
      and a = "Name ''x''" and a' = "Name ''x''"
      and b = "BinOp (Constant (CInt 2)) Add (Constant (CInt 3))" and b' = "Constant (CInt 5)"
      and op' = Add
      and e = "BinOp (Constant (CStr ''ab'')) Mult (BinOp (Constant (CInt 1)) Add (Constant (CInt 1)))"
      and w = "CStr ''abab''"]
  from T h1 h2 h3 h4 h5 h6 h7 show ?thesis by blast
qed

text \<open>
  C9. Constant folding is idempotent after one application: when the folder returns a
  module, folding that module again returns it unchanged.
\<close>

theorem constant_folding_idempotent:
  "cf_module F m = Inr m' \<Longrightarrow> cf_module F m' = Inr m'"
  by (rule cf_idem)

theorem constant_folding_idempotent_witness:
  "cf_module exact_floats (Module [Assign [Name ''y'']
       (BinOp (BinOp (Constant (CInt 1)) Add (Constant (CInt 1))) Add (Name ''x''))])
     = Inr (Module [Assign [Name ''y''] (BinOp (Constant (CInt 2)) Add (Name ''x''))])
   \<and> cf_module exact_floats (Module [Assign [Name ''y''] (BinOp (Constant (CInt 2)) Add (Name ''x''))])
     = Inr (Module [Assign [Name ''y''] (BinOp (Constant (CInt 2)) Add (Name ''x''))])"
proof -
  have h: "cf_module exact_floats (Module [Assign [Name ''y'']
       (BinOp (BinOp (Constant (CInt 1)) Add (Constant (CInt 1))) Add (Name ''x''))])
     = Inr (Module [Assign [Name ''y''] (BinOp (Constant (CInt 2)) Add (Name ''x''))])"
    by (simp add: mk_Constant_def)
  from h constant_folding_idempotent [OF h] show ?thesis by blast
qed

text \<open>
  C6. On every binary operation, after the visit of its children \<open>l\<close> and \<open>r\<close>, the
  strength reducer applies at most one of four rules, tried in this order, and each
  alternative of a rule in its order: \<open>BinOp(x, Mod, Constant(2))\<close> becomes
  \<open>BinOp(x, BitAnd, Constant(1))\<close>; \<open>BinOp(Constant(0), Add, e)\<close>, else
  \<open>BinOp(e, Add, Constant(0))\<close>, becomes \<open>e\<close>; \<open>BinOp(Constant(1), Mult, e)\<close>, else
  \<open>BinOp(e, Mult, Constant(1))\<close>, becomes \<open>e\<close>; \<open>BinOp(Constant(0), Sub, e)\<close> becomes
  \<open>UnaryOp(USub, e)\<close>. Every other shape is returned unchanged. \<open>Constant(k)\<close> is the
  pattern of the source: a constant whose value equals \<open>k\<close>.
\<close>

theorem strength_reduction_rules:
  "sr_expr F (BinOp l op r) = reduce_match F (sr_expr F l) op (sr_expr F r)
   \<and> is_Constant F k (Constant (CInt k))
   \<and> (is_Constant F 2 c \<longrightarrow> reduce_match F x Mod c = BinOp x BitAnd (Constant (CInt 1)))
   \<and> (is_Constant F 0 c \<longrightarrow> reduce_match F c Add e = e)
   \<and> (is_Constant F 0 c \<longrightarrow> \<not> is_Constant F 0 e \<longrightarrow> reduce_match F e Add c = e)
   \<and> (is_Constant F 1 c \<longrightarrow> reduce_match F c Mult e = e)
   \<and> (is_Constant F 1 c \<longrightarrow> \<not> is_Constant F 1 e \<longrightarrow> reduce_match F e Mult c = e)
   \<and> (is_Constant F 0 c \<longrightarrow> reduce_match F c Sub e = UnaryOp USub e)
   \<and> (\<not> (op' = Mod \<and> is_Constant F 2 b) \<longrightarrow>
        \<not> (op' = Add \<and> (is_Constant F 0 a \<or> is_Constant F 0 b)) \<longrightarrow>
        \<not> (op' = Mult \<and> (is_Constant F 1 a \<or> is_Constant F 1 b)) \<longrightarrow>
        \<not> (op' = Sub \<and> is_Constant F 0 a) \<longrightarrow>
        reduce_match F a op' b = BinOp a op' b)"
  by (simp add: reduce_match_def)

theorem strength_reduction_rules_witness:
  "is_Constant exact_floats 2 (Constant (CInt 2))
   \<and> reduce_match exact_floats (Name ''x'') Mod (Constant (CInt 2))
        = BinOp (Name ''x'') BitAnd (Constant (CInt 1))
   \<and> is_Constant exact_floats 0 (Constant (CInt 0))
   \<and> \<not> is_Constant exact_floats 0 (Name ''x'')
   \<and> reduce_match exact_floats (Constant (CInt 0)) Add (Name ''x'') = Name ''x''
   \<and> reduce_match exact_floats (Name ''x'') Add (Constant (CInt 0)) = Name ''x''
   \<and> reduce_match exact_floats (Constant (CInt 0)) Sub (Name ''x'') = UnaryOp USub (Name ''x'')
   \<and> reduce_match exact_floats (Name ''x'') Sub (Constant (CInt 0))
        = BinOp (Name ''x'') Sub (Constant (CInt 0))
   \<and> is_Constant exact_floats 1 (Constant (CInt 1))
   \<and> \<not> is_Constant exact_floats 1 (Name ''y'')
   \<and> reduce_match exact_floats (Constant (CInt 1)) Mult (Name ''y'') = Name ''y''
   \<and> reduce_match exact_floats (Name ''y'') Mult (Constant (CInt 1)) = Name ''y''"
proof -
  have h2: "is_Constant exact_floats 2 (Constant (CInt 2))"
    and h0: "is_Constant exact_floats 0 (Constant (CInt 0))"
    and h1: "is_Constant exact_floats 1 (Constant (CInt 1))"
    and n0: "\<not> is_Constant exact_floats 0 (Name ''x'')"
    and n1: "\<not> is_Constant exact_floats 1 (Name ''y'')" by simp_all
  have o: "\<not> (Sub = Mod \<and> is_Constant exact_floats 2 (Constant (CInt 0)))"
      "\<not> (Sub = Add \<and> (is_Constant exact_floats 0 (Name ''x'') \<or> is_Constant exact_floats 0 (Constant (CInt 0))))"
      "\<not> (Sub = Mult \<and> (is_Constant exact_floats 1 (Name ''x'') \<or> is_Constant exact_floats 1 (Constant (CInt 0))))"
      "\<not> (Sub = Sub \<and> is_Constant exact_floats 0 (Name ''x''))" by simp_all
  note A = strength_reduction_rules [where F = exact_floats and c = "Constant (CInt 2)"
      and x = "Name ''x''" and a = "Name ''x''" and op' = Sub and b = "Constant (CInt 0)"
      and l = "Name ''x''" and op = Add and r = "Name ''x''" and k = 2 and e = "Name ''x''"]
  note B = strength_reduction_rules [where F = exact_floats and c = "Constant (CInt 0)"
      and e = "Name ''x''" and x = "Name ''x''" and a = "Name ''x''" and op' = Sub
      and b = "Constant (CInt 0)" and l = "Name ''x''" and op = Add and r = "Name ''x''" and k = 0]
  note C = strength_reduction_rules [where F = exact_floats and c = "Constant (CInt 1)"
      and e = "Name ''y''" and x = "Name ''x''" and a = "Name ''x''" and op' = Sub
      and b = "Constant (CInt 0)" and l = "Name ''x''" and op = Add and r = "Name ''x''" and k = 1]
  from A B C h0 h1 h2 n0 n1 o show ?thesis by blast
qed

text \<open>
  C8. For every non-negative integer \<open>x\<close>, evaluating \<open>x % 2\<close> and evaluating what the
  strength reducer puts in its place, \<open>x & 1\<close>, give the same result. The operand is any
  integer expression whose value \<open>i\<close> is not negative.
\<close>

theorem mod_two_is_bitand_one:
  "int_eval env e = Some (Inr i) \<Longrightarrow> 0 \<le> i \<Longrightarrow>
     reduce_match F e Mod (Constant (CInt 2)) = BinOp e BitAnd (Constant (CInt 1))
   \<and> int_eval env (BinOp e Mod (Constant (CInt 2))) = Some (Inr (i mod 2))
   \<and> int_eval env (reduce_match F e Mod (Constant (CInt 2)))
        = int_eval env (BinOp e Mod (Constant (CInt 2)))"
  by (simp add: reduce_match_def int_mod_def int_bitand_def and_one_eq)

theorem mod_two_is_bitand_one_witness:
  "int_eval (\<lambda>v. 7) (Name ''x'' :: rat expr) = Some (Inr 7) \<and> (0::int) \<le> 7
   \<and> int_eval (\<lambda>v. 7) (BinOp (Name ''x'' :: rat expr) Mod (Constant (CInt 2))) = Some (Inr 1)
   \<and> int_eval (\<lambda>v. 7) (reduce_match exact_floats (Name ''x'') Mod (Constant (CInt 2))) = Some (Inr 1)"
proof -
  have h1: "int_eval (\<lambda>v. 7) (Name ''x'' :: rat expr) = Some (Inr 7)" by simp
  have h2: "(0::int) \<le> 7" by simp
  have m: "(7::int) mod 2 = 1" by simp
  from mod_two_is_bitand_one [OF h1 h2, of exact_floats] h1 h2 m show ?thesis
    by (simp add: int_mod_def int_bitand_def and_one_eq)
qed

text \<open>
  C7. In a statement list, dead-branch elimination replaces a conditional whose test is a
  constant by the statements of its body when the constant is truthy and by those of its
  else branch otherwise: a splice of any number of statements. The branches have been
  visited before, so they are spliced in as rewritten; they are the statements of the
  source as they stand when they hold no conditional on a constant. A conditional whose
  test is not a constant stays. In particular \<open>if False: y = 100 else: y = 20\<close> becomes
  \<open>y = 20\<close>.
\<close>

theorem dead_branch_splice:
  "dbe_stmts F (pre @ If_stmt (Constant c) body orelse # rest) =
      dbe_stmts F pre @ (if truthy F c then dbe_stmts F body else dbe_stmts F orelse) @ dbe_stmts F rest
   \<and> ((\<forall>c. test \<noteq> Constant c) \<longrightarrow>
        dbe_stmts F (pre @ If_stmt test body orelse # rest) =
          dbe_stmts F pre @ If_stmt test (dbe_stmts F body) (dbe_stmts F orelse) # dbe_stmts F rest)
   \<and> (\<not> const_if_stmts ss \<longrightarrow> dbe_stmts F ss = ss)
   \<and> dbe_stmts F [If_stmt (Constant (CBool False))
          [Assign [Name ''y''] (Constant (CInt 100))] [Assign [Name ''y''] (Constant (CInt 20))]]
       = [Assign [Name ''y''] (Constant (CInt 20))]"
proof -
  have app: "\<And>xs ys. dbe_stmts F (xs @ ys) = dbe_stmts F xs @ dbe_stmts F ys"
  proof -
    fix xs ys :: "'a stmt list"
    show "dbe_stmts F (xs @ ys) = dbe_stmts F xs @ dbe_stmts F ys"
      by (induction xs) simp_all
  qed
  show ?thesis
    by (auto simp: app dbe_id split: expr.splits)
qed

theorem dead_branch_splice_witness:
  "(\<forall>c. Name ''x'' \<noteq> (Constant c :: rat expr))
   \<and> dbe_stmts exact_floats ([Expr (Name ''a'')] @ If_stmt (Name ''x'') [If_stmt (Constant (CInt 0)) [Return None] []]
         [Expr (Name ''b'')] # [Return None])
       = [Expr (Name ''a''), If_stmt (Name ''x'') [] [Expr (Name ''b'')], Return None]
   \<and> \<not> const_if_stmts [Expr (Name ''a'' :: rat expr), Return None]
   \<and> dbe_stmts exact_floats [Expr (Name ''a''), Return None] = [Expr (Name ''a''), Return None]"
proof -
  have h1: "\<forall>c. Name ''x'' \<noteq> (Constant c :: rat expr)" by simp
  have h2: "\<not> const_if_stmts [Expr (Name ''a'' :: rat expr), Return None]" by simp
  note T = dead_branch_splice [where F = exact_floats and test = "Name ''x''"
      and pre = "[Expr (Name ''a'')]" and body = "[If_stmt (Constant (CInt 0)) [Return None] []]"
      and orelse = "[Expr (Name ''b'')]" and rest = "[Return None]"
      and ss = "[Expr (Name ''a''), Return None]"]
  from T h1 h2 show ?thesis by simp
qed

lemma fe_stmts_concat: "fe_stmts D (ss :: 'f stmt list) = concat (map (fe_stmt D) ss)"
  by (induction ss) simp_all

lemma unreachable_defs:
  "get_unreachable m \<inter> defs_module m = defs_module m - reachable (call_graph m)"
  using call_graph_defs[of m] by (auto simp: get_unreachable_def Let_def)

lemma eliminator_defs:
  "D \<inter> defs_module m = D' \<inter> defs_module m \<Longrightarrow> function_eliminator D m = function_eliminator D' m"
proof (cases m)
  case (Module body)
  assume "D \<inter> defs_module m = D' \<inter> defs_module m"
  with Module have "D \<inter> defs_stmts body = D' \<inter> defs_stmts body" by simp
  then have "fe_stmts D body = fe_stmts D' body" by (rule fe_cong)
  with Module show ?thesis by simp
qed

lemma dfe_by_defs:
  "dead_function_eliminator m = function_eliminator (defs_module m - reachable (call_graph m)) m"
  unfolding dead_function_eliminator_def
  by (rule eliminator_defs) (use unreachable_defs[of m] in auto)





lemma exprs_stmts_append [simp]:
  "exprs_stmts (xs @ ys) = exprs_stmts xs @ exprs_stmts (ys :: 'f stmt list)"
  by (induction xs) simp_all

lemma fe_exprs:
  "set (exprs_stmts (fe_stmt D (s :: 'f stmt))) \<subseteq> set (exprs_stmt s)"
  "set (exprs_stmts (fe_stmts D (ss :: 'f stmt list))) \<subseteq> set (exprs_stmts ss)"
  by (induction D s and D ss rule: fe_stmt_fe_stmts.induct) auto

lemma fe_stmts_keeps:
  "(s :: 'f stmt) \<in> set ss \<Longrightarrow> defs_stmt s \<inter> D = {} \<Longrightarrow> s \<in> set (fe_stmts D ss)"
  using fe_stmts_member[of s ss D] fe_id(1)[of s D] by simp

lemma defined_edges_reach:
  "defs_module m - (defined_edges m)\<^sup>* `` {start}
     = defs_module m - reachable (call_graph m)"
proof -
  let ?E = "set (edges (call_graph m))"
  have eq: "defined_edges m = {(a, b). (a, b) \<in> ?E \<and> b \<in> defs_module m}"
    by (auto simp: defined_edges_def)
  have sub: "(defined_edges m)\<^sup>* \<subseteq> ?E\<^sup>*"
    by (rule rtrancl_mono) (auto simp: eq)
  have into: "(start, v) \<in> (defined_edges m)\<^sup>*"
    if "(start, v) \<in> ?E\<^sup>*" and "v \<in> defs_module m" for v
    unfolding eq
    by (rule restrict_reach [where E = ?E]) (use that call_graph_sources[of _ _ m] in auto)
  show ?thesis
    using sub into by (auto simp: reachable_rtrancl)
qed




lemma undefined_callee_unreachable:
  "get_unreachable (undefined_callee_module :: 'f module) = {''dead'', ''print''}"
  by code_simp

text \<open>
  C10. A call of a name that no function definition binds is no error and changes
  nothing but the graph. The function eliminator returns every expression, and so every
  call, as it is: the expressions of its output are expressions of its input; a
  statement that defines no dead function is returned unchanged, whatever it calls and
  whether it is a call at the top level or a kept function definition with the calls of
  its body; such a statement of the module is still there after dead-function
  elimination. The eliminator is these equations and nothing else: a kept function
  definition and a conditional are rebuilt around their rewritten bodies, and a list of
  statements is rewritten statement by statement. Only function definitions are
  dropped, and which ones does not depend on the undefined names: the dead functions are
  the defined names out of reach of the entry node along the edges whose callee is
  defined, also when an undefined name is called from a dead function and ends up in the
  set of unreachable nodes itself.
\<close>

theorem undefined_callee_untouched:
  "set (exprs_stmts (fe_stmts D ss)) \<subseteq> set (exprs_stmts ss)
   \<and> (defs_stmt s \<inter> D = {} \<longrightarrow> fe_stmt D s = [s])
   \<and> (defs_stmts ss \<inter> D = {} \<longrightarrow>
        fe_stmts D ss = ss \<and> exprs_stmts (fe_stmts D ss) = exprs_stmts ss)
   \<and> (name \<notin> D \<longrightarrow>
        fe_stmt D (FunctionDef name body) = [FunctionDef name (fe_stmts D body)])
   \<and> fe_stmt D (If_stmt test body orelse) = [If_stmt test (fe_stmts D body) (fe_stmts D orelse)]
   \<and> fe_stmts D ss = concat (map (fe_stmt D) ss)
   \<and> (s \<in> set (body_of m) \<longrightarrow> defs_stmt s \<inter> get_unreachable m = {} \<longrightarrow>
        s \<in> set (body_of (dead_function_eliminator m)))
   \<and> get_unreachable m \<inter> defs_module m = defs_module m - (defined_edges m)\<^sup>* `` {start}
   \<and> dead_function_eliminator m
        = function_eliminator (defs_module m - (defined_edges m)\<^sup>* `` {start}) m
   \<and> dead_function_eliminator (undefined_callee_module :: 'f module) = Module
        [FunctionDef ''main'' [Expr (Call (Name ''log'') [])],
         Expr (Call (Name ''main'') []),
         Expr (Call (Name ''exit'') [])]"
proof (intro conjI impI)
  show "set (exprs_stmts (fe_stmts D ss)) \<subseteq> set (exprs_stmts ss)" by (rule fe_exprs)
next
  assume "defs_stmt s \<inter> D = {}"
  then show "fe_stmt D s = [s]" by (rule fe_id)
next
  assume "defs_stmts ss \<inter> D = {}"
  then show "fe_stmts D ss = ss" by (rule fe_id)
next
  assume "defs_stmts ss \<inter> D = {}"
  then have "fe_stmts D ss = ss" by (rule fe_id)
  then show "exprs_stmts (fe_stmts D ss) = exprs_stmts ss" by simp
next
  assume "name \<notin> D"
  then show "fe_stmt D (FunctionDef name body) = [FunctionDef name (fe_stmts D body)]" by simp
next
  show "fe_stmt D (If_stmt test body orelse) = [If_stmt test (fe_stmts D body) (fe_stmts D orelse)]"
    by simp
next
  show "fe_stmts D ss = concat (map (fe_stmt D) ss)" by (rule fe_stmts_concat)
next
  assume "s \<in> set (body_of m)" and "defs_stmt s \<inter> get_unreachable m = {}"
  then show "s \<in> set (body_of (dead_function_eliminator m))"
    by (cases m) (simp add: dead_function_eliminator_def fe_stmts_keeps)
next
  show "get_unreachable m \<inter> defs_module m = defs_module m - (defined_edges m)\<^sup>* `` {start}"
    by (simp only: defined_edges_reach unreachable_defs)
next
  show "dead_function_eliminator m
        = function_eliminator (defs_module m - (defined_edges m)\<^sup>* `` {start}) m"
    by (simp only: defined_edges_reach dfe_by_defs)
next
  show "dead_function_eliminator (undefined_callee_module :: 'f module) = Module
        [FunctionDef ''main'' [Expr (Call (Name ''log'') [])],
         Expr (Call (Name ''main'') []),
         Expr (Call (Name ''exit'') [])]"
    by (simp add: dead_function_eliminator_def undefined_callee_unreachable)
       (simp add: undefined_callee_module_def)
qed

theorem undefined_callee_untouched_witness:
  "defs_stmt (FunctionDef ''main'' [Expr (Call (Name ''log'') [])] :: rat stmt)
        \<inter> get_unreachable (undefined_callee_module :: rat module) = {}
   \<and> FunctionDef ''main'' [Expr (Call (Name ''log'') [])]
        \<in> set (body_of (undefined_callee_module :: rat module))
   \<and> ''main'' \<notin> get_unreachable (undefined_callee_module :: rat module)
   \<and> defs_stmts [Expr (Call (Name ''log'') []) :: rat stmt]
        \<inter> get_unreachable (undefined_callee_module :: rat module) = {}
   \<and> fe_stmt (get_unreachable (undefined_callee_module :: rat module))
        (FunctionDef ''main'' [Expr (Call (Name ''log'') [])] :: rat stmt)
        = [FunctionDef ''main'' [Expr (Call (Name ''log'') [])]]
   \<and> fe_stmt (get_unreachable (undefined_callee_module :: rat module))
        (FunctionDef ''main'' [Expr (Call (Name ''log'') [])] :: rat stmt)
        = [FunctionDef ''main'' (fe_stmts (get_unreachable (undefined_callee_module :: rat module))
             [Expr (Call (Name ''log'') [])])]
   \<and> fe_stmts (get_unreachable (undefined_callee_module :: rat module))
        [Expr (Call (Name ''log'') []) :: rat stmt] = [Expr (Call (Name ''log'') [])]
   \<and> FunctionDef ''main'' [Expr (Call (Name ''log'') [])]
        \<in> set (body_of (dead_function_eliminator (undefined_callee_module :: rat module)))"
proof -
  let ?m = "undefined_callee_module :: rat module"
  let ?s = "FunctionDef ''main'' [Expr (Call (Name ''log'') [])] :: rat stmt"
  let ?ss = "[Expr (Call (Name ''log'') [])] :: rat stmt list"
  have h1: "defs_stmt ?s \<inter> get_unreachable ?m = {}"
    by (simp add: undefined_callee_unreachable)
  have h2: "?s \<in> set (body_of ?m)"
    by (simp add: undefined_callee_module_def)
  have h3: "''main'' \<notin> get_unreachable ?m"
    by (simp add: undefined_callee_unreachable)
  have h4: "defs_stmts ?ss \<inter> get_unreachable ?m = {}" by simp
  note T = undefined_callee_untouched [where m = ?m and s = ?s and D = "get_unreachable ?m"
      and ss = ?ss and name = "''main''" and body = ?ss]
  note c2 = T [THEN conjunct2, THEN conjunct1]
  note c3 = T [THEN conjunct2, THEN conjunct2, THEN conjunct1]
  note c4 = T [THEN conjunct2, THEN conjunct2, THEN conjunct2, THEN conjunct1]
  note c7 = T [THEN conjunct2, THEN conjunct2, THEN conjunct2, THEN conjunct2, THEN conjunct2,
      THEN conjunct2, THEN conjunct1]
  have r2: "fe_stmt (get_unreachable ?m) ?s = [?s]" by (rule mp [OF c2 h1])
  have r3: "fe_stmts (get_unreachable ?m) ?ss = ?ss"
    by (rule conjunct1 [OF mp [OF c3 h4]])
  have r4: "fe_stmt (get_unreachable ?m) ?s = [FunctionDef ''main'' (fe_stmts (get_unreachable ?m) ?ss)]"
    by (rule mp [OF c4 h3])
  have r7: "?s \<in> set (body_of (dead_function_eliminator ?m))"
    by (rule mp [OF mp [OF c7 h2] h1])
  from h1 h2 h3 h4 r2 r4 r3 r7 show ?thesis by (intro conjI)
qed

section \<open>Properties of the passes on a store\<close>

lemma same_kind_refl [simp]: "same_kind n n"
  by (cases n) simp_all

lemma same_kind_trans: "same_kind a b \<Longrightarrow> same_kind b c \<Longrightarrow> same_kind a c"
  by (cases a; cases b; cases c) simp_all

lemma grows_refl [simp]: "grows h h"
  by (simp add: grows_def)

lemma grows_trans: "grows h1 h2 \<Longrightarrow> grows h2 h3 \<Longrightarrow> grows h1 h3"
  unfolding grows_def by (meson le_trans less_le_trans same_kind_trans)

lemma grows_append [simp]: "grows h (h @ xs)"
  by (simp add: grows_def nth_append)

lemma grows_update:
  "grows h h1 \<Longrightarrow> r < length h \<Longrightarrow> same_kind (h ! r) x \<Longrightarrow> grows h (h1[r := x])"
  by (auto simp: grows_def nth_list_update)

lemma obind_Inr [simp]:
  "obind m f = Some (Inr y) \<longleftrightarrow> (\<exists>x. m = Some (Inr x) \<and> f x = Some (Inr y))"
  by (auto simp: obind_def split: option.splits sum.splits)

lemma as_node_Inr [simp]:
  "as_node m = Some (Inr (h, c)) \<longleftrightarrow> m = Some (Inr (h, RNode c))"
proof (cases m)
  case None
  then show ?thesis by (simp add: as_node_def obind_def)
next
  case (Some s)
  show ?thesis
  proof (cases s)
    case (Inl e)
    with Some show ?thesis by (simp add: as_node_def obind_def)
  next
    case (Inr p)
    obtain a b where p: "p = (a, b)" by (cases p)
    with Some Inr show ?thesis by (cases b) (simp_all add: as_node_def obind_def)
  qed
qed

lemma leave_grows:
  "leave F T h r = Some (Inr (h', res)) \<Longrightarrow> grows h h'"
  by (cases T)
     (auto simp: cf_leave_def sr_leave_def dbe_leave_def
           split: node.splits if_splits option.splits sum.splits pyconst.splits)

lemma chain1:
  "grows h h1 \<Longrightarrow> r < length h \<Longrightarrow> same_kind (h ! r) y \<Longrightarrow> grows h (h1[r := y])"
  by (rule grows_update)

lemma chain2:
  "grows h h1 \<Longrightarrow> grows (h1[r := x]) h2 \<Longrightarrow> r < length h \<Longrightarrow> same_kind (h ! r) x \<Longrightarrow>
   same_kind (h ! r) y \<Longrightarrow> grows h (h2[r := y])"
  by (meson grows_trans grows_update)

lemma chain3:
  "grows h h1 \<Longrightarrow> grows (h1[r := x]) h2 \<Longrightarrow> grows (h2[r := y]) h3 \<Longrightarrow> r < length h \<Longrightarrow>
   same_kind (h ! r) x \<Longrightarrow> same_kind (h ! r) y \<Longrightarrow> same_kind (h ! r) z \<Longrightarrow>
   grows h (h3[r := z])"
  by (meson grows_trans grows_update)

lemma visit_list_grows_step:
  assumes V: "\<And>h r h' res. visit F T n h r = Some (Inr (h', res)) \<Longrightarrow> grows h h'"
  shows "visit_list F T n h cs = Some (Inr (h', rs)) \<Longrightarrow> grows h h'"
proof (induction cs arbitrary: h h' rs)
  case Nil
  then show ?case by simp
next
  case (Cons c cs)
  from Cons.prems obtain h1 v vs where a: "visit F T n h c = Some (Inr (h1, v))"
    and b: "visit_list F T n h1 cs = Some (Inr (h', vs))" by auto
  from V[OF a] Cons.IH[OF b] show ?case by (rule grows_trans)
qed

lemma generic_grows:
  assumes V: "\<And>h r h' res. visit F T n h r = Some (Inr (h', res)) \<Longrightarrow> grows h h'"
    and L: "\<And>h cs h' rs. visit_list F T n h cs = Some (Inr (h', rs)) \<Longrightarrow> grows h h'"
    and r: "r < length h"
    and g: "generic_visit F T n h r = Some (Inr k)"
  shows "grows h k"
proof (cases "h ! r")
  case (OConstant c) with g show ?thesis by simp
next
  case (OName x) with g show ?thesis by simp
next
  case (OBinOp l op rt)
  with g obtain h1 l' h2 rt' where "visit F T n h l = Some (Inr (h1, RNode l'))"
    and "visit F T n (h1[r := OBinOp l' op rt]) rt = Some (Inr (h2, RNode rt'))"
    and k: "k = h2[r := OBinOp l' op rt']" by auto
  then have "grows h h1" "grows (h1[r := OBinOp l' op rt]) h2" by (auto dest: V)
  then show ?thesis unfolding k by (rule chain2) (simp_all add: r OBinOp)
next
  case (OUnaryOp op e)
  with g obtain h1 e' where "visit F T n h e = Some (Inr (h1, RNode e'))"
    and k: "k = h1[r := OUnaryOp op e']" by auto
  then have "grows h h1" by (auto dest: V)
  then show ?thesis unfolding k by (rule chain1) (simp_all add: r OUnaryOp)
next
  case (OCompare l ops cs)
  with g obtain h1 l' h2 cs' where "visit F T n h l = Some (Inr (h1, RNode l'))"
    and "visit_list F T n (h1[r := OCompare l' ops cs]) cs = Some (Inr (h2, cs'))"
    and k: "k = h2[r := OCompare l' ops cs']" by auto
  then have "grows h h1" "grows (h1[r := OCompare l' ops cs]) h2" by (auto dest: V L)
  then show ?thesis unfolding k by (rule chain2) (simp_all add: r OCompare)
next
  case (OCall func args)
  with g obtain h1 f' h2 args' where "visit F T n h func = Some (Inr (h1, RNode f'))"
    and "visit_list F T n (h1[r := OCall f' args]) args = Some (Inr (h2, args'))"
    and k: "k = h2[r := OCall f' args']" by auto
  then have "grows h h1" "grows (h1[r := OCall f' args]) h2" by (auto dest: V L)
  then show ?thesis unfolding k by (rule chain2) (simp_all add: r OCall)
next
  case (OFunctionDef name body)
  with g obtain h1 body' where "visit_list F T n h body = Some (Inr (h1, body'))"
    and k: "k = h1[r := OFunctionDef name body']" by auto
  then have "grows h h1" by (auto dest: L)
  then show ?thesis unfolding k by (rule chain1) (simp_all add: r OFunctionDef)
next
  case (OAssign targets v)
  with g obtain h1 ts' h2 v' where "visit_list F T n h targets = Some (Inr (h1, ts'))"
    and "visit F T n (h1[r := OAssign ts' v]) v = Some (Inr (h2, RNode v'))"
    and k: "k = h2[r := OAssign ts' v']" by auto
  then have "grows h h1" "grows (h1[r := OAssign ts' v]) h2" by (auto dest: V L)
  then show ?thesis unfolding k by (rule chain2) (simp_all add: r OAssign)
next
  case (OIf test body orelse)
  with g obtain h1 t' h2 b' h3 e' where "visit F T n h test = Some (Inr (h1, RNode t'))"
    and "visit_list F T n (h1[r := OIf t' body orelse]) body = Some (Inr (h2, b'))"
    and "visit_list F T n (h2[r := OIf t' b' orelse]) orelse = Some (Inr (h3, e'))"
    and k: "k = h3[r := OIf t' b' e']" by auto
  then have "grows h h1" "grows (h1[r := OIf t' body orelse]) h2"
    "grows (h2[r := OIf t' b' orelse]) h3" by (auto dest: V L)
  then show ?thesis unfolding k by (rule chain3) (simp_all add: r OIf)
next
  case (OReturn v)
  show ?thesis
  proof (cases v)
    case None
    with g OReturn show ?thesis by simp
  next
    case (Some w)
    with g OReturn obtain h1 v' where "visit F T n h w = Some (Inr (h1, RNode v'))"
      and k: "k = h1[r := OReturn (Some v')]" by auto
    then have "grows h h1" by (auto dest: V)
    then show ?thesis unfolding k by (rule chain1) (simp_all add: r OReturn)
  qed
next
  case (OExpr v)
  with g obtain h1 v' where "visit F T n h v = Some (Inr (h1, RNode v'))"
    and k: "k = h1[r := OExpr v']" by auto
  then have "grows h h1" by (auto dest: V)
  then show ?thesis unfolding k by (rule chain1) (simp_all add: r OExpr)
next
  case (OModule body)
  with g obtain h1 body' where "visit_list F T n h body = Some (Inr (h1, body'))"
    and k: "k = h1[r := OModule body']" by auto
  then have "grows h h1" by (auto dest: L)
  then show ?thesis unfolding k by (rule chain1) (simp_all add: r OModule)
qed

lemma visit_grows_all:
  "(\<forall>h r h' res. visit F T n h r = Some (Inr (h', res)) \<longrightarrow> grows h h')"
proof (induction n)
  case 0
  show ?case by simp
next
  case (Suc n)
  have V: "\<And>h r h' res. visit F T n h r = Some (Inr (h', res)) \<Longrightarrow> grows h h'"
    using Suc by blast
  have L: "\<And>h cs h' rs. visit_list F T n h cs = Some (Inr (h', rs)) \<Longrightarrow> grows h h'"
    by (rule visit_list_grows_step [OF V])
  show ?case
  proof (intro allI impI)
    fix h r h' res
    assume a: "visit F T (Suc n) h r = Some (Inr (h', res))"
    show "grows h h'"
    proof (cases "length h \<le> r \<or> drops T (h ! r)")
      case True
      with a show ?thesis by (auto split: if_splits)
    next
      case False
      then have r: "r < length h" by simp
      from a False obtain k where g: "generic_visit F T n h r = Some (Inr k)"
        and l: "leave F T k r = Some (Inr (h', res))" by auto
      from generic_grows [OF V L r g] leave_grows [OF l] show ?thesis by (rule grows_trans)
    qed
  qed
qed

lemma visit_grows: "visit F T n h r = Some (Inr (h', res)) \<Longrightarrow> grows h h'"
  using visit_grows_all by blast

lemma leave_Module:
  "r < length k \<Longrightarrow> k ! r = OModule body \<Longrightarrow> leave F T k r = Some (Inr (k, RNode r))"
  by (cases T) (simp_all add: cf_leave_def sr_leave_def dbe_leave_def)

lemma visit_Module:
  assumes v: "visit F T n h r = Some (Inr (h', res))" and m: "h ! r = OModule body"
  shows "res = RNode r"
proof (cases n)
  case 0
  with v show ?thesis by simp
next
  case (Suc k)
  with v have r: "r < length h" by (simp split: if_splits)
  from v Suc m r obtain h1 body' where l: "visit_list F T k h body = Some (Inr (h1, body'))"
    and e: "leave F T (h1[r := OModule body']) r = Some (Inr (h', res))"
    by (auto split: if_splits)
  have "grows h h1"
    using l by (rule visit_list_grows_step [rotated]) (rule visit_grows)
  with r have lr: "r < length h1" by (simp add: grows_def)
  have "leave F T (h1[r := OModule body']) r = Some (Inr (h1[r := OModule body'], RNode r))"
    by (rule leave_Module) (simp_all add: lr)
  with e show ?thesis by simp
qed

text \<open>
  C4, as stated, fails. A pass does change nodes of the input tree in place: after the
  constant folder has visited the module \<open>y = 1 + 1\<close>, the assignment object of the
  input refers to a new constant as its value, and the module object returned is the one
  passed in.
\<close>

theorem constant_folder_mutates_input:
  "visit exact_floats ConstantFolder 4 cex_store 5 = Some (Inr (cex_after, RNode 5))
   \<and> (cex_store :: rat store) ! 4 = OAssign [3] 2
   \<and> (cex_after :: rat store) ! 4 = OAssign [3] 6
   \<and> (cex_store :: rat store) ! 4 \<noteq> (cex_after :: rat store) ! 4"
  by (simp add: cex_store_def cex_after_def cf_leave_def mk_Constant_def obind_def as_node_def
      numeral_nat)

text \<open>
  C4, amended. A pass rewrites the input tree in place: the children of an input node
  may be reassigned, and a module object passed in is the object returned. What no pass
  does to an object of the input store is remove it, change its class, or change a field
  that is no child: the value of a constant, an identifier, an operator, the name of a
  function. This holds for the constant folder, the strength reducer, the dead-branch
  eliminator and the function eliminator with any set of names, whenever the visit
  returns.
\<close>

theorem passes_rewrite_in_place:
  "visit F T n h r = Some (Inr (h', res)) \<Longrightarrow>
     length h \<le> length h'
     \<and> (\<forall>a<length h. same_kind (h ! a) (h' ! a))
     \<and> (\<forall>body. h ! r = OModule body \<longrightarrow> res = RNode r)"
  using visit_grows [of F T n h r h' res] visit_Module [of F T n h r h' res]
  by (simp add: grows_def)

theorem passes_rewrite_in_place_witness:
  "visit exact_floats ConstantFolder 4 cex_store 5 = Some (Inr (cex_after, RNode 5))
   \<and> length (cex_store :: rat store) \<le> length (cex_after :: rat store)
   \<and> same_kind ((cex_store :: rat store) ! 4) (cex_after ! 4)
   \<and> same_kind ((cex_store :: rat store) ! 2) (cex_after ! 2)
   \<and> (cex_store :: rat store) ! 5 = OModule [4]"
proof -
  have v: "visit exact_floats ConstantFolder 4 cex_store 5 = Some (Inr (cex_after, RNode 5))"
    by (simp add: cex_store_def cex_after_def cf_leave_def mk_Constant_def obind_def as_node_def
        numeral_nat)
  have m: "(cex_store :: rat store) ! 5 = OModule [4]"
    by (simp add: cex_store_def)
  have l: "(4::nat) < length (cex_store :: rat store)" "(2::nat) < length (cex_store :: rat store)"
    by (simp_all add: cex_store_def)
  note T = passes_rewrite_in_place [OF v]
  from T have a: "length (cex_store :: rat store) \<le> length (cex_after :: rat store)"
    by (rule conjunct1)
  from T have b: "\<forall>a<length (cex_store :: rat store). same_kind (cex_store ! a) ((cex_after :: rat store) ! a)"
    by (rule conjunct1 [OF conjunct2])
  from b l have c: "same_kind ((cex_store :: rat store) ! 4) (cex_after ! 4)"
    "same_kind ((cex_store :: rat store) ! 2) (cex_after ! 2)" by blast+
  from v a c m show ?thesis by (intro conjI)
qed

section \<open>When a pass returns a tree\<close>















section \<open>A remark on the name of the entry node\<close>

text \<open>
  The entry node of the call graph is the string \<^verbatim>\<open>"start"\<close>, and a function definition
  adds its own name as a node. A function that is itself named \<open>start\<close> therefore shares
  the entry node: it is never eliminated, and what it calls counts as called from the top
  level, whether or not anything calls it.
\<close>

lemma entry_node_never_unreachable: "start \<notin> get_unreachable m"
  by (simp add: get_unreachable_def Let_def reachable_def)

lemma function_named_start_is_kept:
  "dead_function_eliminator
     (Module [FunctionDef ''start'' [Expr (Call (Name ''f'') [])], FunctionDef ''f'' [Return None]]
        :: 'f module)
   = Module [FunctionDef ''start'' [Expr (Call (Name ''f'') [])], FunctionDef ''f'' [Return None]]"
proof -
  have "get_unreachable
     (Module [FunctionDef ''start'' [Expr (Call (Name ''f'') [])], FunctionDef ''f'' [Return None]]
        :: 'f module)
     = {}"
    by code_simp
  then show ?thesis by (simp add: dead_function_eliminator_def)
qed

section \<open>A remark on the constant patterns of the strength reducer\<close>

text \<open>
  The patterns \<^verbatim>\<open>Constant(0)\<close>, \<^verbatim>\<open>Constant(1)\<close> and \<^verbatim>\<open>Constant(2)\<close> compare the value of the
  node with the number, so a boolean constant matches as \<open>0\<close> or \<open>1\<close>: \<open>x + False\<close> is
  reduced to \<open>x\<close> just as \<open>x + 0\<close> is.
\<close>

lemma boolean_constants_match_numbers:
  "is_Constant F 0 (Constant (CBool False)) \<and> is_Constant F 1 (Constant (CBool True))
   \<and> reduce_match F (Name ''x'') Add (Constant (CBool False)) = Name ''x''"
  by (simp add: reduce_match_def)

end
